theory Spec2Isabelle
  imports Main "HOL-Library.Word"
begin

unbundle bit_operations_syntax

section \<open>Memory manager: \<^verbatim>\<open>src/syscall/mm.c\<close>\<close>

text \<open>
  The guest is a 32-bit process: \<^verbatim>\<open>size_t\<close>, \<^verbatim>\<open>void *\<close>, \<^verbatim>\<open>int\<close> and
  \<^verbatim>\<open>uint32_t\<close> are 32-bit words whose arithmetic wraps, \<^verbatim>\<open>uint16_t\<close> and
  \<^verbatim>\<open>uint8_t\<close> are 16-bit and 8-bit words. Pointers compare as unsigned addresses.
\<close>

type_synonym u8 = "8 word"
type_synonym u16 = "16 word"
type_synonym u32 = "32 word"

subsection \<open>Constants and helper macros\<close>

definition MAX_MMAP_COUNT :: nat where "MAX_MMAP_COUNT = 65535"

definition ADDRESS_SPACE_LOW :: u32 where "ADDRESS_SPACE_LOW = 0x00000000"
definition ADDRESS_SPACE_HIGH :: u32 where "ADDRESS_SPACE_HIGH = 0x80000000"
definition ADDRESS_ALLOCATION_LOW :: u32 where "ADDRESS_ALLOCATION_LOW = 0x04000000"
definition ADDRESS_ALLOCATION_HIGH :: u32 where "ADDRESS_ALLOCATION_HIGH = 0x70000000"

definition PAGES_PER_BLOCK :: u32 where "PAGES_PER_BLOCK = 16"

text \<open>
  \<^verbatim>\<open>PAGE_SIZE\<close> and \<^verbatim>\<open>BLOCK_SIZE\<close> come from a header that is not among the sources;
  their values are fixed by the masks of \<^verbatim>\<open>ALIGN_TO_PAGE\<close> and \<^verbatim>\<open>ALIGN_TO_BLOCK\<close> and by
  \<^verbatim>\<open>PAGES_PER_BLOCK\<close>.
\<close>

definition PAGE_SIZE :: u32 where "PAGE_SIZE = 0x1000"
definition BLOCK_SIZE :: u32 where "BLOCK_SIZE = 0x10000"

text \<open>
  The Linux i386 ABI values of the protection bits, the mapping flags and the error
  numbers (their header is not among the sources either). The internal flag
  \<^verbatim>\<open>__MAP_HEAP\<close> and the address \<^verbatim>\<open>HEAP_BASE\<close> are project-specific and are parameters
  of the model, see \<open>config\<close> below.
\<close>

definition PROT_READ :: u32 where "PROT_READ = 1"
definition PROT_WRITE :: u32 where "PROT_WRITE = 2"
definition PROT_EXEC :: u32 where "PROT_EXEC = 4"

definition MAP_SHARED :: u32 where "MAP_SHARED = 0x01"
definition MAP_PRIVATE :: u32 where "MAP_PRIVATE = 0x02"
definition MAP_FIXED :: u32 where "MAP_FIXED = 0x10"
definition MAP_ANONYMOUS :: u32 where "MAP_ANONYMOUS = 0x20"

definition EBADF :: u32 where "EBADF = 9"
definition ENOMEM :: u32 where "ENOMEM = 12"
definition EINVAL :: u32 where "EINVAL = 22"

definition IS_ALIGNED :: "u32 \<Rightarrow> u32 \<Rightarrow> bool" where
  "IS_ALIGNED addr alignment = (addr mod alignment = 0)"

definition ALIGN_TO_PAGE :: "u32 \<Rightarrow> u32" where
  "ALIGN_TO_PAGE addr = (addr + PAGE_SIZE - 1) AND 0xFFFFF000"

definition GET_BLOCK :: "u32 \<Rightarrow> u32" where
  "GET_BLOCK addr = addr div BLOCK_SIZE"

definition GET_PAGE :: "u32 \<Rightarrow> u32" where
  "GET_PAGE addr = addr div PAGE_SIZE"

definition GET_PAGE_IN_BLOCK :: "u32 \<Rightarrow> u32" where
  "GET_PAGE_IN_BLOCK page = page mod PAGES_PER_BLOCK"

definition GET_BLOCK_OF_PAGE :: "u32 \<Rightarrow> u32" where
  "GET_BLOCK_OF_PAGE page = page div PAGES_PER_BLOCK"

definition GET_FIRST_PAGE_OF_BLOCK :: "u32 \<Rightarrow> u32" where
  "GET_FIRST_PAGE_OF_BLOCK block = block * PAGES_PER_BLOCK"

definition GET_PAGE_ADDRESS :: "u32 \<Rightarrow> u32" where
  "GET_PAGE_ADDRESS page = page * PAGE_SIZE"

subsection \<open>Data\<close>

text \<open>
  A \<^verbatim>\<open>struct map_entry *\<close> is \<open>None\<close> (the null pointer) or \<open>Some i\<close>, the address of
  \<^verbatim>\<open>mm->map_entries[i]\<close>; a \<^verbatim>\<open>struct file *\<close> and a \<^verbatim>\<open>HANDLE\<close> are \<open>None\<close> or
  \<open>Some\<close> of an identifier. The entries live in the arena \<open>map_entries\<close>, so that two
  lists sharing a cell are modelled as the C code has them.
\<close>

record map_entry =
  start_page :: u32
  end_page :: u32
  f_ptr :: "nat option"
  offset_pages :: u32
  next_entry :: "nat option"

datatype winprot =
  PAGE_NOACCESS | PAGE_READONLY | PAGE_READWRITE
  | PAGE_EXECUTE | PAGE_EXECUTE_READ | PAGE_EXECUTE_READWRITE

text \<open>
  The calls the memory manager makes to the host and to the file layer, each with the
  result the host gave. Blocks and pages are given by number, not by address. A view
  mapped without a base address (in \<^verbatim>\<open>duplicate_section\<close>) is \<open>MapViewAnywhere\<close>.
\<close>

datatype host_call =
  NtCreateSection "nat option"
  | NtMapViewOfSection nat nat bool
  | MapViewAnywhere nat
  | NtUnmapViewOfSection nat bool
  | UnmapViewAnywhere nat
  | NtClose "nat option"
  | VirtualProtect nat nat winprot bool
  | NtQueryObject nat "nat option"
  | CopyMemory nat nat
  | FileRefInc nat
  | FilePread nat u32 u32 nat
  | VfsRelease nat

text \<open>
  The host is deterministic in the history of calls: each field answers one kind of call
  from the calls made so far. \<open>create_section\<close> gives the new handle, or \<open>None\<close> for a
  failure status; \<open>query_object\<close> gives the \<^verbatim>\<open>HandleCount\<close> of a section, or \<open>None\<close>.
\<close>

record host =
  create_section :: "host_call list \<Rightarrow> nat option"
  map_view :: "host_call list \<Rightarrow> nat \<Rightarrow> nat \<Rightarrow> bool"
  unmap_view :: "host_call list \<Rightarrow> nat \<Rightarrow> bool"
  virtual_protect :: "host_call list \<Rightarrow> nat \<Rightarrow> nat \<Rightarrow> winprot \<Rightarrow> bool"
  query_object :: "host_call list \<Rightarrow> nat \<Rightarrow> nat option"
  vfs_get :: "u32 \<Rightarrow> nat option"

record config =
  HEAP_BASE :: u32
  MAP_HEAP :: u32

text \<open>
  \<^verbatim>\<open>struct mm_data\<close>. The arrays are indexed by the number the C code indexes them with.
  \<open>host_trace\<close> is not a field of the C structure: it is the list of host calls made so
  far, oldest first.
\<close>

record mm_data =
  brk :: u32
  map_list :: "nat option"
  map_free_list :: "nat option"
  map_entries :: "nat \<Rightarrow> map_entry"
  block_section_handle :: "nat \<Rightarrow> nat option"
  block_page_count :: "nat \<Rightarrow> u8"
  page_prot :: "nat \<Rightarrow> u8"
  host_trace :: "host_call list"

text \<open>
  What a call does: it returns a value and leaves a state, or it dereferences a null
  pointer (\<open>Fault\<close>). A call that may loop forever has an \<open>option\<close> around this, with
  \<open>None\<close> for a call that never returns.
\<close>

datatype 'a result = Fault | Return 'a mm_data

definition log_call :: "host_call \<Rightarrow> mm_data \<Rightarrow> mm_data" where
  "log_call c s = s\<lparr>host_trace := host_trace s @ [c]\<rparr>"

subsection \<open>The entry arena\<close>

definition new_map_entry :: "mm_data \<Rightarrow> nat option \<times> mm_data" where
  "new_map_entry s =
     (case map_free_list s of
        Some entry \<Rightarrow> (Some entry, s\<lparr>map_free_list := next_entry (map_entries s entry)\<rparr>)
      | None \<Rightarrow> (None, s))"

definition free_map_entry :: "nat \<Rightarrow> mm_data \<Rightarrow> mm_data" where
  "free_map_entry entry s =
     s\<lparr>map_entries := (map_entries s)(entry := (map_entries s entry)\<lparr>next_entry := map_free_list s\<rparr>),
       map_free_list := Some entry\<rparr>"

text \<open>
  \<^verbatim>\<open>mm_init\<close>: \<^verbatim>\<open>VirtualAlloc\<close> commits zeroed memory, so every field the function does
  not write is zero; the free list chains all entries in index order.
\<close>

definition mm_init :: mm_data where
  "mm_init =
     \<lparr>brk = 0,
      map_list = None,
      map_free_list = Some 0,
      map_entries = (\<lambda>i. \<lparr>start_page = 0, end_page = 0, f_ptr = None, offset_pages = 0,
                         next_entry = (if i + 1 < MAX_MMAP_COUNT then Some (i + 1) else None)\<rparr>),
      block_section_handle = (\<lambda>_. None),
      block_page_count = (\<lambda>_. 0),
      page_prot = (\<lambda>_. 0),
      host_trace = []\<rparr>"

definition mm_update_brk :: "u32 \<Rightarrow> mm_data \<Rightarrow> mm_data" where
  "mm_update_brk b s = s\<lparr>brk := max (brk s) b\<rparr>"

subsection \<open>\<^verbatim>\<open>find_free_pages\<close>\<close>

text \<open>
  The scan follows \<^verbatim>\<open>next\<close> pointers until the null pointer; on a cyclic list it may
  never return. \<open>lowp\<close> and \<open>highp\<close> are \<^verbatim>\<open>GET_PAGE(low)\<close> and \<^verbatim>\<open>GET_PAGE(high)\<close>.
\<close>

partial_function (option) find_free_loop ::
  "(nat \<Rightarrow> map_entry) \<Rightarrow> u32 \<Rightarrow> u32 \<Rightarrow> u32 \<Rightarrow> u32 \<Rightarrow> nat option \<Rightarrow> u32 option"
where
  "find_free_loop es count lowp highp last_pg e =
     (case e of
        None \<Rightarrow> Some (if highp - last_pg \<ge> count then last_pg else 0)
      | Some i \<Rightarrow>
          if start_page (es i) \<ge> lowp then
            if start_page (es i) - last_pg \<ge> count then Some last_pg
            else find_free_loop es count lowp highp (end_page (es i) + 1) (next_entry (es i))
          else find_free_loop es count lowp highp last_pg (next_entry (es i)))"

definition find_free_pages :: "mm_data \<Rightarrow> u32 \<Rightarrow> u32 \<Rightarrow> u32 \<Rightarrow> u32 option" where
  "find_free_pages s count low high =
     find_free_loop (map_entries s) count (GET_PAGE low) (GET_PAGE high) (GET_PAGE low) (map_list s)"

definition prot_linux2win :: "u32 \<Rightarrow> winprot" where
  "prot_linux2win prot =
     (if prot AND PROT_EXEC \<noteq> 0 \<and> prot AND PROT_WRITE \<noteq> 0 then PAGE_EXECUTE_READWRITE
      else if prot AND PROT_EXEC \<noteq> 0 \<and> prot AND PROT_READ \<noteq> 0 then PAGE_EXECUTE_READ
      else if prot AND PROT_EXEC \<noteq> 0 then PAGE_EXECUTE
      else if prot AND PROT_WRITE \<noteq> 0 then PAGE_READWRITE
      else if prot AND PROT_READ \<noteq> 0 then PAGE_READONLY
      else PAGE_NOACCESS)"

subsection \<open>Counting loops\<close>

text \<open>
  \<^verbatim>\<open>for (uint32_t i = a; i <= b; i++)\<close> visits \<open>range_u32 a b\<close>: every bound the code
  uses is a page number (at most \<open>2^20\<close>), so \<open>i\<close> does not wrap. The same loop over
  \<^verbatim>\<open>uint16_t\<close> visits \<open>range_u16 a b\<close> when \<open>b < 0xFFFF\<close> and never ends when
  \<open>b = 0xFFFF\<close>, where \<^verbatim>\<open>i <= b\<close> holds for every \<open>i\<close>.
\<close>

definition range_u32 :: "u32 \<Rightarrow> u32 \<Rightarrow> u32 list" where
  "range_u32 a b = map word_of_nat [unat a ..< Suc (unat b)]"

definition range_u16 :: "u16 \<Rightarrow> u16 \<Rightarrow> u16 list" where
  "range_u16 a b = map word_of_nat [unat a ..< Suc (unat b)]"

subsection \<open>\<^verbatim>\<open>mm_munmap\<close>\<close>

text \<open>
  The three statements that give a block back to the host when its page count is zero
  (lines 650-655, and again lines 521-526 in the rollback of \<^verbatim>\<open>mm_mmap\<close>).
\<close>

definition release_block :: "host \<Rightarrow> u16 \<Rightarrow> mm_data \<Rightarrow> mm_data" where
  "release_block H i s =
     (if block_page_count s (unat i) = 0 then
        let s1 = log_call (NtUnmapViewOfSection (unat i) (unmap_view H (host_trace s) (unat i))) s;
            s2 = log_call (NtClose (block_section_handle s1 (unat i))) s1
        in s2\<lparr>block_section_handle := (block_section_handle s2)(unat i := None)\<rparr>
      else s)"

definition free_unused_blocks :: "host \<Rightarrow> u16 \<Rightarrow> u16 \<Rightarrow> mm_data \<Rightarrow> mm_data option" where
  "free_unused_blocks H start_block end_block s =
     (if end_block = 0xFFFF then None
      else Some (fold (release_block H) (range_u16 start_block end_block) s))"

definition dec_page_count :: "u32 \<Rightarrow> mm_data \<Rightarrow> mm_data" where
  "dec_page_count i s =
     s\<lparr>block_page_count := (block_page_count s)
         (unat (GET_BLOCK_OF_PAGE i) := block_page_count s (unat (GET_BLOCK_OF_PAGE i)) - 1)\<rparr>"

text \<open>
  The four ways an overlapped entry \<open>e\<close> is modified (lines 601-642), for the overlap
  \<open>[start_pg, end_pg]\<close>. The result is the state, \<^verbatim>\<open>pred\<close> and the next \<^verbatim>\<open>e\<close>; \<open>None\<close>
  is the null dereference of \<^verbatim>\<open>ne\<close> when the free list is empty. The assignments are
  made one after the other, as in C, so that \<^verbatim>\<open>ne\<close> and \<^verbatim>\<open>e\<close> may be the same cell.
\<close>

definition unmap_entry ::
  "nat option \<Rightarrow> nat \<Rightarrow> u32 \<Rightarrow> u32 \<Rightarrow> mm_data \<Rightarrow> (mm_data \<times> nat option \<times> nat option) option"
where
  "unmap_entry pred e start_pg end_pg s =
     (let es = map_entries s in
      if start_pg > start_page (es e) \<and> end_pg < end_page (es e) then
        (case new_map_entry s of
           (None, _) \<Rightarrow> None
         | (Some ne, s1) \<Rightarrow>
             let es = map_entries s1;
                 es = es(ne := (es ne)\<lparr>start_page := end_pg + 1\<rparr>);
                 es = es(ne := (es ne)\<lparr>end_page := end_page (es e)\<rparr>);
                 es = es(ne := (es ne)\<lparr>f_ptr := f_ptr (es e)\<rparr>);
                 es = (if f_ptr (es ne) \<noteq> None
                       then es(ne := (es ne)\<lparr>offset_pages :=
                              offset_pages (es e) + (start_page (es ne) - start_page (es e))\<rparr>)
                       else es);
                 es = es(e := (es e)\<lparr>end_page := start_pg - 1\<rparr>);
                 es = es(ne := (es ne)\<lparr>next_entry := next_entry (es e)\<rparr>);
                 es = es(e := (es e)\<lparr>next_entry := Some ne\<rparr>)
             in Some (s1\<lparr>map_entries := es\<rparr>, Some e, next_entry (es e)))
      else if start_pg > start_page (es e) then
        let es = es(e := (es e)\<lparr>end_page := start_pg - 1\<rparr>)
        in Some (s\<lparr>map_entries := es\<rparr>, Some e, next_entry (es e))
      else if end_pg < end_page (es e) then
        let es = (if f_ptr (es e) \<noteq> None
                  then es(e := (es e)\<lparr>offset_pages :=
                         offset_pages (es e) + (end_pg + 1 - start_page (es e))\<rparr>)
                  else es);
            es = es(e := (es e)\<lparr>start_page := end_pg + 1\<rparr>)
        in Some (s\<lparr>map_entries := es\<rparr>, Some e, next_entry (es e))
      else
        let s1 = (case f_ptr (es e) of Some fl \<Rightarrow> log_call (VfsRelease fl) s | None \<Rightarrow> s);
            s2 = (case pred of
                    None \<Rightarrow> s1\<lparr>map_list := next_entry (map_entries s1 e)\<rparr>
                  | Some p \<Rightarrow> s1\<lparr>map_entries := (map_entries s1)
                      (p := (map_entries s1 p)\<lparr>next_entry := next_entry (map_entries s1 e)\<rparr>)\<rparr>);
            e' = next_entry (map_entries s2 e)
        in Some (free_map_entry e s2, pred, e'))"

text \<open>
  What follows the modification of an overlapped entry (lines 643-656): the page counts
  of the overlap go down, and the blocks of the overlap left with count zero are released.
\<close>

definition unmap_pages :: "host \<Rightarrow> u32 \<Rightarrow> u32 \<Rightarrow> mm_data \<Rightarrow> mm_data option" where
  "unmap_pages H start_pg end_pg s =
     free_unused_blocks H (ucast (GET_BLOCK_OF_PAGE start_pg)) (ucast (GET_BLOCK_OF_PAGE end_pg))
       (fold dec_page_count (range_u32 start_pg end_pg) s)"

partial_function (option) munmap_loop ::
  "host \<Rightarrow> u32 \<Rightarrow> u32 \<Rightarrow> nat option \<Rightarrow> nat option \<Rightarrow> mm_data \<Rightarrow> unit result option"
where
  "munmap_loop H unmap_start_page unmap_end_page pred e s =
     (case e of
        None \<Rightarrow> Some (Return () s)
      | Some i \<Rightarrow>
          if start_page (map_entries s i) > unmap_end_page then Some (Return () s)
          else if end_page (map_entries s i) \<ge> unmap_start_page then
            (case unmap_entry pred i (max unmap_start_page (start_page (map_entries s i)))
                    (min unmap_end_page (end_page (map_entries s i))) s of
               None \<Rightarrow> Some Fault
             | Some (s1, pred1, e1) \<Rightarrow>
                 (case unmap_pages H (max unmap_start_page (start_page (map_entries s i)))
                         (min unmap_end_page (end_page (map_entries s i))) s1 of
                    None \<Rightarrow> None
                  | Some s2 \<Rightarrow> munmap_loop H unmap_start_page unmap_end_page pred1 e1 s2))
          else munmap_loop H unmap_start_page unmap_end_page (Some i)
                 (next_entry (map_entries s i)) s)"

definition bad_range :: "u32 \<Rightarrow> u32 \<Rightarrow> bool" where
  "bad_range addr len =
     (addr < ADDRESS_SPACE_LOW \<or> addr \<ge> ADDRESS_SPACE_HIGH
      \<or> addr + len < ADDRESS_SPACE_LOW \<or> addr + len \<ge> ADDRESS_SPACE_HIGH
      \<or> addr + len < addr)"

definition mm_munmap :: "host \<Rightarrow> u32 \<Rightarrow> u32 \<Rightarrow> mm_data \<Rightarrow> u32 result option" where
  "mm_munmap H addr len s =
     (if \<not> IS_ALIGNED addr PAGE_SIZE then Some (Return (- EINVAL) s)
      else if bad_range addr (ALIGN_TO_PAGE len) then Some (Return (- EINVAL) s)
      else
        (case munmap_loop H (GET_PAGE addr) (GET_PAGE (addr + ALIGN_TO_PAGE len - 1)) None
                (map_list s) s of
           None \<Rightarrow> None
         | Some Fault \<Rightarrow> Some Fault
         | Some (Return _ s') \<Rightarrow> Some (Return 0 s')))"

subsection \<open>\<^verbatim>\<open>mm_mmap\<close>\<close>

text \<open>
  The rollback loop (lines 519-527), \<^verbatim>\<open>for (uint16_t j = start_block; j < i; j++)\<close>:
  \<open>j\<close> stays below \<open>i\<close>, so it does not wrap.
\<close>

definition rollback :: "host \<Rightarrow> u16 \<Rightarrow> u16 \<Rightarrow> mm_data \<Rightarrow> mm_data" where
  "rollback H start_block i s =
     fold (release_block H) (map word_of_nat [unat start_block ..< unat i]) s"

text \<open>
  The loop that allocates and maps the missing sections (lines 479-530), from block \<open>i\<close>
  on. It gives \<open>(True, s)\<close> when the loop ends and \<open>(False, s)\<close> after the rollback;
  \<^verbatim>\<open>i++\<close> wraps at 16 bits, so with \<open>end_block = 0xFFFF\<close> the loop only ends by a
  rollback. \<^verbatim>\<open>dump_virtual_memory\<close> only writes to the log and is left out.
\<close>

partial_function (option) alloc_blocks ::
  "host \<Rightarrow> u16 \<Rightarrow> u16 \<Rightarrow> u16 \<Rightarrow> mm_data \<Rightarrow> (bool \<times> mm_data) option"
where
  "alloc_blocks H start_block end_block i s =
     (if i \<le> end_block then
        (if block_page_count s (unat i) = 0 then
           (case create_section H (host_trace s) of
              None \<Rightarrow> Some (False, rollback H start_block i (log_call (NtCreateSection None) s))
            | Some handle \<Rightarrow>
                if \<not> map_view H (host_trace s @ [NtCreateSection (Some handle)]) handle (unat i)
                then Some (False, rollback H start_block i
                       (log_call (NtClose (Some handle))
                         (log_call (NtMapViewOfSection handle (unat i) False)
                           (log_call (NtCreateSection (Some handle)) s))))
                else alloc_blocks H start_block end_block (i + 1)
                       ((log_call (NtMapViewOfSection handle (unat i) True)
                           (log_call (NtCreateSection (Some handle)) s))
                        \<lparr>block_section_handle :=
                           (block_section_handle s)(unat i := Some handle)\<rparr>))
         else alloc_blocks H start_block end_block (i + 1) s)
      else Some (True, s))"

text \<open>
  The insertion into the list (lines 543-558). \<open>insert_here\<close> is the test
  \<^verbatim>\<open>!e->next || e->next->start_page > end_page\<close> and \<open>link_after\<close> the two assignments
  \<^verbatim>\<open>entry->next = e->next; e->next = entry\<close>. The loop follows \<^verbatim>\<open>next\<close> pointers and
  may never return on a cyclic list; when it runs off the end nothing is inserted.
\<close>

definition insert_here :: "(nat \<Rightarrow> map_entry) \<Rightarrow> nat \<Rightarrow> u32 \<Rightarrow> bool" where
  "insert_here es i end_pg =
     (case next_entry (es i) of None \<Rightarrow> True | Some n \<Rightarrow> start_page (es n) > end_pg)"

definition link_after :: "(nat \<Rightarrow> map_entry) \<Rightarrow> nat \<Rightarrow> nat \<Rightarrow> (nat \<Rightarrow> map_entry)" where
  "link_after es entry i =
     (let es1 = es(entry := (es entry)\<lparr>next_entry := next_entry (es i)\<rparr>)
      in es1(i := (es1 i)\<lparr>next_entry := Some entry\<rparr>))"

partial_function (option) insert_loop ::
  "nat \<Rightarrow> u32 \<Rightarrow> nat option \<Rightarrow> mm_data \<Rightarrow> mm_data option"
where
  "insert_loop entry end_pg e s =
     (case e of
        None \<Rightarrow> Some s
      | Some i \<Rightarrow>
          if insert_here (map_entries s) i end_pg
          then Some (s\<lparr>map_entries := link_after (map_entries s) entry i\<rparr>)
          else insert_loop entry end_pg (next_entry (map_entries s i)) s)"

definition insert_entry :: "nat \<Rightarrow> u32 \<Rightarrow> mm_data \<Rightarrow> mm_data option" where
  "insert_entry entry end_pg s =
     (case map_list s of
        None \<Rightarrow> Some (s\<lparr>map_list := Some entry\<rparr>)
      | Some h \<Rightarrow>
          if start_page (map_entries s h) > end_pg then
            Some (s\<lparr>map_entries := (map_entries s)
                      (entry := (map_entries s entry)\<lparr>next_entry := next_entry (map_entries s h)\<rparr>),
                    map_list := Some entry\<rparr>)
          else insert_loop entry end_pg (Some h) s)"

text \<open>The last loop (lines 559-570), over the pages still to do.\<close>

fun protect_pages :: "host \<Rightarrow> u32 \<Rightarrow> u32 \<Rightarrow> u32 list \<Rightarrow> mm_data \<Rightarrow> u32 result" where
  "protect_pages H addr prot [] s = Return addr s"
| "protect_pages H addr prot (i # pages) s =
     (let s1 = s\<lparr>page_prot := (page_prot s)(unat i := ucast prot)\<rparr>;
          s2 = s1\<lparr>block_page_count := (block_page_count s1)
                 (unat (GET_BLOCK_OF_PAGE i) := block_page_count s1 (unat (GET_BLOCK_OF_PAGE i)) + 1)\<rparr>;
          ok = virtual_protect H (host_trace s2) (unat i) 1 (prot_linux2win prot);
          s3 = log_call (VirtualProtect (unat i) 1 (prot_linux2win prot) ok) s2
      in if \<not> ok then Return (- ENOMEM) s3 else protect_pages H addr prot pages s3)"

text \<open>
  \<^verbatim>\<open>mm_mmap\<close> from line 463 on, where \<open>addr\<close> is the address to map at and \<open>len\<close> the
  page-aligned length. The last argument of \<^verbatim>\<open>pread\<close> is the byte offset
  \<^verbatim>\<open>(loff_t)offset_pages * PAGE_SIZE\<close>, a 64-bit product that does not wrap.
\<close>

definition mm_mmap_at ::
  "host \<Rightarrow> u32 \<Rightarrow> u32 \<Rightarrow> u32 \<Rightarrow> u32 \<Rightarrow> nat option \<Rightarrow> u32 \<Rightarrow> mm_data \<Rightarrow> u32 result option"
where
  "mm_mmap_at H addr len prot flags f offset s =
     (case (if flags AND MAP_FIXED \<noteq> 0 then mm_munmap H addr len s else Some (Return 0 s)) of
        None \<Rightarrow> None
      | Some Fault \<Rightarrow> Some Fault
      | Some (Return _ s1) \<Rightarrow>
          (case alloc_blocks H (ucast (GET_BLOCK addr)) (ucast (GET_BLOCK (addr + len - 1)))
                  (ucast (GET_BLOCK addr)) s1 of
             None \<Rightarrow> None
           | Some (False, s2) \<Rightarrow> Some (Return (- ENOMEM) s2)
           | Some (True, s2) \<Rightarrow>
               (case new_map_entry s2 of
                  (None, _) \<Rightarrow> Some Fault
                | (Some entry, s3) \<Rightarrow>
                    let s4 = s3\<lparr>map_entries := (map_entries s3)
                               (entry := (map_entries s3 entry)
                                  \<lparr>start_page := GET_PAGE addr,
                                   end_page := GET_PAGE (addr + len - 1),
                                   f_ptr := f,
                                   offset_pages := offset\<rparr>)\<rparr>;
                        s5 = (case f of
                                None \<Rightarrow> s4
                              | Some fl \<Rightarrow>
                                  log_call (FilePread fl (GET_PAGE addr * PAGE_SIZE)
                                      ((GET_PAGE (addr + len - 1) - GET_PAGE addr + 1) * PAGE_SIZE)
                                      (unat offset * unat PAGE_SIZE))
                                    (log_call (FileRefInc fl) s4))
                    in (case insert_entry entry (GET_PAGE (addr + len - 1)) s5 of
                          None \<Rightarrow> None
                        | Some s6 \<Rightarrow>
                            Some (protect_pages H addr
                              (if flags AND MAP_ANONYMOUS = 0 then prot OR PROT_WRITE else prot)
                              (range_u32 (GET_PAGE addr) (GET_PAGE (addr + len - 1))) s6)))))"

definition mm_mmap ::
  "host \<Rightarrow> config \<Rightarrow> u32 \<Rightarrow> u32 \<Rightarrow> u32 \<Rightarrow> u32 \<Rightarrow> nat option \<Rightarrow> u32 \<Rightarrow> mm_data
     \<Rightarrow> u32 result option"
where
  "mm_mmap H C addr len prot flags f offset s =
     (if len = 0 then Some (Return (- EINVAL) s)
      else if bad_range addr (ALIGN_TO_PAGE len) then Some (Return (- EINVAL) s)
      else if flags AND MAP_SHARED \<noteq> 0 then Some (Return (- EINVAL) s)
      else if flags AND MAP_ANONYMOUS \<noteq> 0 \<and> f \<noteq> None then Some (Return (- EINVAL) s)
      else if flags AND MAP_ANONYMOUS = 0 \<and> f = None then Some (Return (- EBADF) s)
      else if flags AND MAP_FIXED = 0 then
        (case (if flags AND MAP_HEAP C \<noteq> 0
               then find_free_pages s (GET_PAGE (ALIGN_TO_PAGE (ALIGN_TO_PAGE len)))
                      (HEAP_BASE C) ADDRESS_ALLOCATION_LOW
               else find_free_pages s (GET_PAGE (ALIGN_TO_PAGE (ALIGN_TO_PAGE len)))
                      ADDRESS_ALLOCATION_LOW ADDRESS_ALLOCATION_HIGH) of
           None \<Rightarrow> None
         | Some alloc_page \<Rightarrow>
             if alloc_page = 0 then Some (Return (- ENOMEM) s)
             else mm_mmap_at H (GET_PAGE_ADDRESS alloc_page) (ALIGN_TO_PAGE len) prot flags f offset s)
      else if \<not> IS_ALIGNED addr PAGE_SIZE then Some (Return (- EINVAL) s)
      else mm_mmap_at H addr (ALIGN_TO_PAGE len) prot flags f offset s)"

text \<open>
  \<^verbatim>\<open>vfs_get\<close> belongs to the file layer and is a field of the host. The page offset is
  \<^verbatim>\<open>offset / PAGE_SIZE\<close>.
\<close>

definition sys_mmap ::
  "host \<Rightarrow> config \<Rightarrow> u32 \<Rightarrow> u32 \<Rightarrow> u32 \<Rightarrow> u32 \<Rightarrow> u32 \<Rightarrow> u32 \<Rightarrow> mm_data \<Rightarrow> u32 result option"
where
  "sys_mmap H C addr len prot flags fd offset s =
     (if \<not> IS_ALIGNED offset PAGE_SIZE then Some (Return (- EINVAL) s)
      else mm_mmap H C addr len prot flags (vfs_get H fd) (offset div PAGE_SIZE) s)"

subsection \<open>\<^verbatim>\<open>sys_brk\<close>\<close>

text \<open>
  \<^verbatim>\<open>sys_mmap(...) < 0\<close> compares a \<^verbatim>\<open>void *\<close> with the null pointer: pointers compare
  as unsigned addresses, and so do the words here.
\<close>

definition sys_brk :: "host \<Rightarrow> config \<Rightarrow> u32 \<Rightarrow> mm_data \<Rightarrow> u32 result option" where
  "sys_brk H C addr s =
     (if ALIGN_TO_PAGE addr > brk s then
        (case sys_mmap H C (ALIGN_TO_PAGE (brk s)) (ALIGN_TO_PAGE addr - ALIGN_TO_PAGE (brk s))
                (PROT_READ OR PROT_WRITE OR PROT_EXEC)
                (MAP_FIXED OR MAP_ANONYMOUS OR MAP_PRIVATE) (- 1) 0 s of
           None \<Rightarrow> None
         | Some Fault \<Rightarrow> Some Fault
         | Some (Return r s1) \<Rightarrow>
             if r < 0 then Some (Return (- ENOMEM) s1)
             else Some (Return (ALIGN_TO_PAGE addr) (s1\<lparr>brk := ALIGN_TO_PAGE addr\<rparr>)))
      else Some (Return (brk s) s))"

subsection \<open>\<^verbatim>\<open>sys_mprotect\<close>\<close>

text \<open>The validation walk (lines 720-729); its result is \<^verbatim>\<open>last_page\<close>.\<close>

partial_function (option) mprotect_walk ::
  "(nat \<Rightarrow> map_entry) \<Rightarrow> u32 \<Rightarrow> u32 \<Rightarrow> u32 \<Rightarrow> nat option \<Rightarrow> u32 option"
where
  "mprotect_walk es start_pg end_pg last_page e =
     (case e of
        None \<Rightarrow> Some last_page
      | Some i \<Rightarrow>
          if start_page (es i) > end_pg then Some last_page
          else if end_page (es i) \<ge> start_pg then
            (if start_page (es i) = last_page + 1
             then mprotect_walk es start_pg end_pg (end_page (es i)) (next_entry (es i))
             else Some last_page)
          else mprotect_walk es start_pg end_pg last_page (next_entry (es i)))"

text \<open>
  The host calls of lines 734-754. The state of the loops is \<open>j\<close> and the trace; the
  stored protections are read but not written here.
\<close>

definition mprotect_block_step :: "host \<Rightarrow> winprot \<Rightarrow> u32 \<Rightarrow> u32 \<times> mm_data \<Rightarrow> u32 \<times> mm_data" where
  "mprotect_block_step H protection k js =
     (case js of (j, s) \<Rightarrow>
        ((k + 1) * PAGES_PER_BLOCK,
         log_call (VirtualProtect (unat j) (unat (PAGES_PER_BLOCK - GET_PAGE_IN_BLOCK j)) protection
             (virtual_protect H (host_trace s) (unat j)
                (unat (PAGES_PER_BLOCK - GET_PAGE_IN_BLOCK j)) protection)) s))"

definition mprotect_page_step :: "host \<Rightarrow> u32 \<Rightarrow> u32 \<Rightarrow> u32 \<Rightarrow> u32 \<times> mm_data \<Rightarrow> u32 \<times> mm_data" where
  "mprotect_page_step H prot end_pg i js =
     (case js of (j, s) \<Rightarrow>
        if page_prot s (unat i) \<noteq> page_prot s (unat j) \<or> i = end_pg + 1 then
          (let protection =
                 (if ucast (page_prot s (unat j)) AND PROT_WRITE \<noteq> 0 then prot_linux2win prot
                  else prot_linux2win (prot AND NOT PROT_WRITE))
           in case fold (mprotect_block_step H protection)
                     (map word_of_nat [unat (GET_BLOCK_OF_PAGE j) ..< unat (GET_BLOCK_OF_PAGE (i - 1))])
                     (j, s) of
                (j1, s1) \<Rightarrow>
                  if i > j1 then
                    (j1, log_call (VirtualProtect (unat j1) (unat (i - j1)) protection
                            (virtual_protect H (host_trace s1) (unat j1) (unat (i - j1)) protection)) s1)
                  else (j1, s1))
        else (j, s))"

definition set_page_prot :: "u32 \<Rightarrow> u32 \<Rightarrow> mm_data \<Rightarrow> mm_data" where
  "set_page_prot prot i s = s\<lparr>page_prot := (page_prot s)(unat i := ucast prot)\<rparr>"

definition sys_mprotect :: "host \<Rightarrow> u32 \<Rightarrow> u32 \<Rightarrow> u32 \<Rightarrow> mm_data \<Rightarrow> u32 result option" where
  "sys_mprotect H addr len prot s =
     (if \<not> IS_ALIGNED addr PAGE_SIZE then Some (Return (- EINVAL) s)
      else if bad_range addr (ALIGN_TO_PAGE len) then Some (Return (- EINVAL) s)
      else
        (case mprotect_walk (map_entries s) (GET_PAGE addr) (GET_PAGE (addr + ALIGN_TO_PAGE len - 1))
                (GET_PAGE addr - 1) (map_list s) of
           None \<Rightarrow> None
         | Some last_page \<Rightarrow>
             if last_page < GET_PAGE (addr + ALIGN_TO_PAGE len - 1) then Some (Return (- ENOMEM) s)
             else
               Some (Return 0
                 (fold (set_page_prot prot)
                    (range_u32 (GET_PAGE addr) (GET_PAGE (addr + ALIGN_TO_PAGE len - 1)))
                    (snd (fold (mprotect_page_step H prot (GET_PAGE (addr + ALIGN_TO_PAGE len - 1)))
                            (range_u32 (GET_PAGE addr) (GET_PAGE (addr + ALIGN_TO_PAGE len - 1) + 1))
                            (GET_PAGE addr, s)))))))"

subsection \<open>\<^verbatim>\<open>mm_handle_page_fault\<close>\<close>




section \<open>Dynamic binary translator: \<^verbatim>\<open>src/dbt/x86.c\<close>\<close>

subsection \<open>The code emitter\<close>

text \<open>
  The output pointer \<^verbatim>\<open>uint8_t **out\<close> is the list of bytes emitted so far. The \<^verbatim>\<open>int\<close>
  fields of \<^verbatim>\<open>struct modrm_rm_t\<close> are integers; a byte is stored by conversion to
  \<^verbatim>\<open>uint8_t\<close>, a double word as four bytes, lowest first (the host is x86).
\<close>

definition MODRM_PURE_REGISTER :: int where "MODRM_PURE_REGISTER = 1"

record modrm_rm_t =
  rm_base :: int
  rm_index :: int
  rm_scale :: int
  rm_flags :: int
  rm_disp :: int

definition GET_MODRM_MOD :: "u8 \<Rightarrow> u8" where
  "GET_MODRM_MOD c = drop_bit 6 c AND 7"

definition GET_MODRM_R :: "u8 \<Rightarrow> u8" where
  "GET_MODRM_R c = drop_bit 3 c AND 7"

definition GET_MODRM_RM :: "u8 \<Rightarrow> u8" where
  "GET_MODRM_RM c = c AND 7"

definition GET_SIB_SCALE :: "u8 \<Rightarrow> u8" where
  "GET_SIB_SCALE s = drop_bit 6 s"

definition GET_SIB_INDEX :: "u8 \<Rightarrow> u8" where
  "GET_SIB_INDEX s = drop_bit 3 s AND 7"

definition GET_SIB_BASE :: "u8 \<Rightarrow> u8" where
  "GET_SIB_BASE s = s AND 7"

definition gen_byte :: "u8 list \<Rightarrow> u8 \<Rightarrow> u8 list" where
  "gen_byte out x = out @ [x]"

definition gen_dword :: "u8 list \<Rightarrow> u32 \<Rightarrow> u8 list" where
  "gen_dword out x =
     out @ [ucast x, ucast (drop_bit 8 x), ucast (drop_bit 16 x), ucast (drop_bit 24 x)]"

definition gen_modrm :: "u8 list \<Rightarrow> int \<Rightarrow> int \<Rightarrow> int \<Rightarrow> u8 list" where
  "gen_modrm out md r rm = gen_byte out (word_of_int (push_bit 6 md + push_bit 3 r + rm))"

definition gen_sib :: "u8 list \<Rightarrow> int \<Rightarrow> int \<Rightarrow> int \<Rightarrow> u8 list" where
  "gen_sib out base index scale =
     gen_byte out (word_of_int (push_bit 6 scale + push_bit 3 index + base))"

text \<open>
  \<^verbatim>\<open>gen_modrm_sib\<close>: \<open>None\<close> is the branch that calls \<^verbatim>\<open>log_error\<close> and emits nothing.
\<close>

definition gen_modrm_sib :: "u8 list \<Rightarrow> int \<Rightarrow> modrm_rm_t \<Rightarrow> u8 list option" where
  "gen_modrm_sib out r rm =
     (if rm_flags rm = MODRM_PURE_REGISTER then Some (gen_modrm out 3 r (rm_base rm))
      else if rm_index rm = 4 then None
      else if rm_base rm = - 1 \<and> rm_index rm = - 1 then
        Some (gen_dword (gen_modrm out 0 r 5) (word_of_int (rm_disp rm)))
      else if rm_base rm = - 1 then
        Some (gen_dword (gen_sib (gen_modrm out 0 r 4) 5 (rm_index rm) (rm_scale rm))
                (word_of_int (rm_disp rm)))
      else if rm_base rm = 4 \<or> rm_index rm \<noteq> - 1 then
        Some (gen_dword
                (gen_sib (gen_modrm out 2 r 4) (rm_base rm)
                   (if rm_index rm = - 1 then 4 else rm_index rm) (rm_scale rm))
                (word_of_int (rm_disp rm)))
      else
        Some (gen_dword (gen_modrm out 2 r (rm_base rm)) (word_of_int (rm_disp rm))))"

subsection \<open>The block index\<close>

text \<open>
  A \<^verbatim>\<open>struct dbt_block *\<close> is the index of the block in the arena \<^verbatim>\<open>dbt->blocks\<close>.

  Modelled from the spec: the list macros of \<^verbatim>\<open>core/forward_list.h\<close>
  (\<^verbatim>\<open>forward_list_init\<close>, \<^verbatim>\<open>forward_list_iterate\<close>, \<^verbatim>\<open>forward_list_add\<close>) are not among the
  sources. A bucket is the list of its blocks in the order the iteration visits them;
  \<^verbatim>\<open>forward_list_add\<close> puts the new block first ("insertion order within a bucket is
  last-in-first-found") and \<^verbatim>\<open>forward_list_init\<close> empties the bucket.

  The sizes \<^verbatim>\<open>DBT_CACHE_SIZE\<close> and \<^verbatim>\<open>MAX_DBT_BLOCKS\<close> and the address \<^verbatim>\<open>DBT_CACHE_BASE\<close>
  come from a header that is not among the sources and are parameters (\<open>dbt_config\<close>).
  The three TLS offsets of \<^verbatim>\<open>struct dbt_data\<close> play no part in the index and are left out.
\<close>

definition DBT_OUT_ALIGN :: u32 where "DBT_OUT_ALIGN = 16"
definition DBT_BLOCK_HASH_BUCKETS :: nat where "DBT_BLOCK_HASH_BUCKETS = 4096"
definition DBT_BLOCK_MAXSIZE :: u32 where "DBT_BLOCK_MAXSIZE = 1024"

record dbt_config =
  DBT_CACHE_BASE :: u32
  DBT_CACHE_SIZE :: u32
  MAX_DBT_BLOCKS :: nat

record dbt_block =
  block_pc :: u32
  block_start :: u32

record dbt_data =
  block_hash :: "nat \<Rightarrow> nat list"
  blocks :: "nat \<Rightarrow> dbt_block"
  blocks_count :: nat
  out_ptr :: u32
  end_ptr :: u32

definition dbt_flush :: "dbt_config \<Rightarrow> dbt_data \<Rightarrow> dbt_data" where
  "dbt_flush K d =
     d\<lparr>block_hash := (\<lambda>i. if i < DBT_BLOCK_HASH_BUCKETS then [] else block_hash d i),
       blocks_count := 0,
       out_ptr := DBT_CACHE_BASE K,
       end_ptr := DBT_CACHE_BASE K + DBT_CACHE_SIZE K\<rparr>"

definition hash_block_pc :: "u32 \<Rightarrow> nat" where
  "hash_block_pc pc = unat ((pc + push_bit 3 pc + push_bit 9 pc) mod 4096)"

text \<open>\<^verbatim>\<open>dbt->end - dbt->out\<close> is a pointer difference, a signed number.\<close>

definition alloc_block :: "dbt_config \<Rightarrow> dbt_data \<Rightarrow> nat option \<times> dbt_data" where
  "alloc_block K d =
     (if blocks_count d = MAX_DBT_BLOCKS K \<or> end_ptr d - out_ptr d <s DBT_BLOCK_MAXSIZE
      then (None, d)
      else (Some (blocks_count d), d\<lparr>blocks_count := blocks_count d + 1\<rparr>))"

definition find_block :: "dbt_data \<Rightarrow> u32 \<Rightarrow> nat option" where
  "find_block d pc =
     find (\<lambda>block. block_pc (blocks d block) = pc) (block_hash d (hash_block_pc pc))"

text \<open>
  \<^verbatim>\<open>dbt_translate\<close>. The instruction loop (lines 492-810) decodes guest memory with
  opcode tables that are not among the sources; of \<^verbatim>\<open>struct dbt_data\<close> it writes only
  \<^verbatim>\<open>dbt->end\<close> (in \<^verbatim>\<open>dbt_get_direct_trampoline\<close>) and, at line 811, \<^verbatim>\<open>dbt->out\<close>. It is the
  parameter \<open>emit\<close>: from the state and the block being filled it gives the final
  \<open>(out, end)\<close>, or \<open>None\<close> when the loop stops in \<^verbatim>\<open>__debugbreak\<close> or never ends.
  \<open>None\<close> is also the null dereference when \<^verbatim>\<open>alloc_block\<close> fails after the flush.
\<close>

definition translate_into ::
  "(dbt_data \<Rightarrow> nat \<Rightarrow> (u32 \<times> u32) option) \<Rightarrow> nat \<Rightarrow> u32 \<Rightarrow> dbt_data \<Rightarrow> (nat \<times> dbt_data) option"
where
  "translate_into emit block pc d =
     (let d1 = d\<lparr>blocks := (blocks d)(block :=
                   \<lparr>block_pc = pc,
                    block_start = (out_ptr d + DBT_OUT_ALIGN - 1) AND - DBT_OUT_ALIGN\<rparr>)\<rparr>
      in case emit d1 block of
           None \<Rightarrow> None
         | Some (out, end_cache) \<Rightarrow> Some (block, d1\<lparr>out_ptr := out, end_ptr := end_cache\<rparr>))"

definition dbt_translate ::
  "dbt_config \<Rightarrow> (dbt_data \<Rightarrow> nat \<Rightarrow> (u32 \<times> u32) option) \<Rightarrow> u32 \<Rightarrow> dbt_data
     \<Rightarrow> (nat \<times> dbt_data) option"
where
  "dbt_translate K emit pc d =
     (case alloc_block K d of
        (Some block, d1) \<Rightarrow> translate_into emit block pc d1
      | (None, d1) \<Rightarrow>
          (case alloc_block K (dbt_flush K d1) of
             (Some block, d2) \<Rightarrow> translate_into emit block pc d2
           | (None, d2) \<Rightarrow> None))"

definition dbt_find_next ::
  "dbt_config \<Rightarrow> (dbt_data \<Rightarrow> nat \<Rightarrow> (u32 \<times> u32) option) \<Rightarrow> u32 \<Rightarrow> dbt_data
     \<Rightarrow> (u32 \<times> dbt_data) option"
where
  "dbt_find_next K emit pc d =
     (case find (\<lambda>block. block_pc (blocks d block) = pc) (block_hash d (hash_block_pc pc)) of
        Some block \<Rightarrow> Some (block_start (blocks d block), d)
      | None \<Rightarrow>
          (case dbt_translate K emit pc d of
             None \<Rightarrow> None
           | Some (block, d1) \<Rightarrow>
               Some (block_start (blocks d1 block),
                     d1\<lparr>block_hash := (block_hash d1)
                          (hash_block_pc pc := block # block_hash d1 (hash_block_pc pc))\<rparr>)))"

section \<open>Notions the properties are stated with\<close>

text \<open>A host on which every call succeeds; a new section gets a fresh handle.\<close>

definition host_ok :: host where
  "host_ok =
     \<lparr>create_section = (\<lambda>t. Some (Suc (length t))),
      map_view = (\<lambda>_ _ _. True),
      unmap_view = (\<lambda>_ _. True),
      virtual_protect = (\<lambda>_ _ _ _. True),
      query_object = (\<lambda>_ _. Some 1),
      vfs_get = (\<lambda>_. None)\<rparr>"

text \<open>The cell reached from pointer \<open>p\<close> after following \<open>n\<close> \<^verbatim>\<open>next\<close> pointers.\<close>

fun nth_entry :: "(nat \<Rightarrow> map_entry) \<Rightarrow> nat option \<Rightarrow> nat \<Rightarrow> nat option" where
  "nth_entry es p 0 = p"
| "nth_entry es p (Suc n) =
     (case p of None \<Rightarrow> None | Some i \<Rightarrow> nth_entry es (next_entry (es i)) n)"

text \<open>What a call returned, and the state it left (for a call that returned).\<close>

definition returned :: "'a result option \<Rightarrow> 'a option" where
  "returned r = (case r of Some (Return v s) \<Rightarrow> Some v | _ \<Rightarrow> None)"

definition state_after :: "'a result option \<Rightarrow> mm_data" where
  "state_after r = (case r of Some (Return v s) \<Rightarrow> s)"

text \<open>
  An example configuration for the concrete runs below: \<^verbatim>\<open>HEAP_BASE\<close> is some address
  below \<^verbatim>\<open>ADDRESS_ALLOCATION_LOW\<close> and \<^verbatim>\<open>__MAP_HEAP\<close> some bit that is none of the Linux
  mapping flags.
\<close>

definition config0 :: config where
  "config0 = \<lparr>HEAP_BASE = 0x02000000, MAP_HEAP = 0x40000000\<rparr>"

definition prot_rw :: u32 where
  "prot_rw = PROT_READ OR PROT_WRITE"

definition fixed_anon :: u32 where
  "fixed_anon = MAP_FIXED OR MAP_ANONYMOUS OR MAP_PRIVATE"

text \<open>Two fixed one-page mappings after \<^verbatim>\<open>mm_init\<close>, the second below the first.\<close>

definition high_then_low_1 :: "u32 result option" where
  "high_then_low_1 = mm_mmap host_ok config0 0x20000000 0x1000 prot_rw fixed_anon None 0 mm_init"

definition high_then_low_2 :: "u32 result option" where
  "high_then_low_2 =
     mm_mmap host_ok config0 0x10000000 0x1000 prot_rw fixed_anon None 0 (state_after high_then_low_1)"

text \<open>A fixed mapping at \<open>0x1000\<close> whose length is within a page of \<open>2^32\<close>.\<close>

definition huge_length_map :: "u32 result option" where
  "huge_length_map = mm_mmap host_ok config0 0x1000 0xFFFFFFFF prot_rw fixed_anon None 0 mm_init"

text \<open>A two-page mapping, then \<^verbatim>\<open>mprotect\<close> of its second page.\<close>

definition two_pages_map :: "u32 result option" where
  "two_pages_map = mm_mmap host_ok config0 0x20000000 0x2000 prot_rw fixed_anon None 0 mm_init"

definition second_page_protect :: "u32 result option" where
  "second_page_protect = sys_mprotect host_ok 0x20001000 0x1000 PROT_READ (state_after two_pages_map)"

text \<open>
  \<^verbatim>\<open>dbt_init\<close>: the structures are fresh zeroed memory, so every bucket is empty; the
  function sets the block count and the two cursors.
\<close>

definition dbt_init :: "dbt_config \<Rightarrow> dbt_data" where
  "dbt_init K =
     \<lparr>block_hash = (\<lambda>_. []),
      blocks = (\<lambda>_. \<lparr>block_pc = 0, block_start = 0\<rparr>),
      blocks_count = 0,
      out_ptr = DBT_CACHE_BASE K,
      end_ptr = DBT_CACHE_BASE K + DBT_CACHE_SIZE K\<rparr>"

text \<open>
  The blocks of the index, bucket after bucket, and those among them translated from
  \<open>pc\<close>.
\<close>

definition index_blocks :: "dbt_data \<Rightarrow> nat list" where
  "index_blocks d = concat (map (block_hash d) [0..<DBT_BLOCK_HASH_BUCKETS])"

definition blocks_with_pc :: "dbt_data \<Rightarrow> u32 \<Rightarrow> nat list" where
  "blocks_with_pc d pc = filter (\<lambda>block. block_pc (blocks d block) = pc) (index_blocks d)"

text \<open>
  The states of the translator: the one \<^verbatim>\<open>dbt_init\<close> leaves, and those reached from it by
  \<^verbatim>\<open>dbt_flush\<close> (\<^verbatim>\<open>dbt_reset\<close>) and by calls of \<^verbatim>\<open>dbt_find_next\<close> that return, whatever
  the instruction loop emits in each call.
\<close>

inductive reachable :: "dbt_config \<Rightarrow> dbt_data \<Rightarrow> bool" for K where
  init: "reachable K (dbt_init K)"
| flush: "reachable K d \<Longrightarrow> reachable K (dbt_flush K d)"
| find_next: "reachable K d \<Longrightarrow> dbt_find_next K emit pc d = Some (a, d') \<Longrightarrow> reachable K d'"

text \<open>
  The invariant of the index: a block of bucket \<open>b\<close> is an allocated block whose \<open>pc\<close>
  hashes to \<open>b\<close>, and no two blocks of a bucket have the same \<open>pc\<close>.
\<close>

definition index_ok :: "dbt_data \<Rightarrow> bool" where
  "index_ok d =
     (\<forall>b < DBT_BLOCK_HASH_BUCKETS.
        (\<forall>i \<in> set (block_hash d b).
           i < blocks_count d \<and> hash_block_pc (block_pc (blocks d i)) = b)
        \<and> distinct (map (\<lambda>i. block_pc (blocks d i)) (block_hash d b)))"

text \<open>
  An example for the concrete runs: a configuration, and an instruction loop that emits
  16 bytes and no trampoline.
\<close>

definition dbt_config0 :: dbt_config where
  "dbt_config0 = \<lparr>DBT_CACHE_BASE = 0x71000000, DBT_CACHE_SIZE = 0x00100000, MAX_DBT_BLOCKS = 4096\<rparr>"

definition emit0 :: "dbt_data \<Rightarrow> nat \<Rightarrow> (u32 \<times> u32) option" where
  "emit0 d block = Some (block_start (blocks d block) + 16, end_ptr d)"

definition first_lookup :: "(u32 \<times> dbt_data) option" where
  "first_lookup = dbt_find_next dbt_config0 emit0 0x10000 (dbt_init dbt_config0)"

definition after_first_lookup :: dbt_data where
  "after_first_lookup = (case first_lookup of Some (a, d) \<Rightarrow> d)"




text \<open>
  The arguments of the \<^verbatim>\<open>sys_mmap\<close> call that \<^verbatim>\<open>sys_brk\<close> makes to grow the break to
  \<open>addr\<close> (line 784), as a call of \<^verbatim>\<open>mm_mmap\<close>; descriptor \<open>-1\<close> is no file on the hosts
  below. A host that creates no section.
\<close>

definition brk_mmap :: "host \<Rightarrow> config \<Rightarrow> u32 \<Rightarrow> mm_data \<Rightarrow> u32 result option" where
  "brk_mmap H C addr s =
     mm_mmap H C (ALIGN_TO_PAGE (brk s)) (ALIGN_TO_PAGE addr - ALIGN_TO_PAGE (brk s))
       (PROT_READ OR PROT_WRITE OR PROT_EXEC) (MAP_FIXED OR MAP_ANONYMOUS OR MAP_PRIVATE)
       None 0 s"

definition host_no_section :: host where
  "host_no_section = host_ok\<lparr>create_section := (\<lambda>_. None)\<rparr>"









text \<open>
  A fixed mapping of the two pages on either side of \<^verbatim>\<open>ADDRESS_ALLOCATION_LOW\<close> after
  \<^verbatim>\<open>mm_init\<close>, and then a mapping of one page wherever the search finds room.
\<close>

definition straddle_map :: "u32 result option" where
  "straddle_map = mm_mmap host_ok config0 0x03FFF000 0x2000 prot_rw fixed_anon None 0 mm_init"

definition search_after_straddle :: "u32 result option" where
  "search_after_straddle =
     mm_mmap host_ok config0 0 0x1000 prot_rw (MAP_ANONYMOUS OR MAP_PRIVATE) None 0
       (state_after straddle_map)"

section \<open>Evaluation\<close>

lemmas mm_consts = MAX_MMAP_COUNT_def ADDRESS_SPACE_LOW_def ADDRESS_SPACE_HIGH_def
  ADDRESS_ALLOCATION_LOW_def ADDRESS_ALLOCATION_HIGH_def PAGES_PER_BLOCK_def PAGE_SIZE_def
  BLOCK_SIZE_def PROT_READ_def PROT_WRITE_def PROT_EXEC_def MAP_SHARED_def MAP_PRIVATE_def
  MAP_FIXED_def MAP_ANONYMOUS_def EBADF_def ENOMEM_def EINVAL_def IS_ALIGNED_def
  ALIGN_TO_PAGE_def GET_BLOCK_def GET_PAGE_def GET_PAGE_IN_BLOCK_def GET_BLOCK_OF_PAGE_def
  GET_FIRST_PAGE_OF_BLOCK_def GET_PAGE_ADDRESS_def

lemmas mm_eval = mm_consts bad_range_def mm_mmap_def mm_mmap_at_def mm_munmap_def
  munmap_loop.simps alloc_blocks.simps new_map_entry_def insert_entry_def insert_loop.simps
  range_u32_def range_u16_def log_call_def host_ok_def prot_linux2win_def rollback_def
  release_block_def insert_here_def link_after_def mm_init_def unmap_entry_def unmap_pages_def
  free_unused_blocks_def dec_page_count_def free_map_entry_def sys_mprotect_def
  mprotect_walk.simps sys_brk_def sys_mmap_def returned_def state_after_def config0_def
  prot_rw_def fixed_anon_def

lemma nth_entry_self_loop: "next_entry (es i) = Some i \<Longrightarrow> nth_entry es (Some i) n = Some i"
  by (induction n) simp_all

section \<open>The map-entry list\<close>

lemma high_then_low_1_eval:
  "high_then_low_1 =
     Some (Return 0x20000000
       (mm_init\<lparr>map_list := Some 0, map_free_list := Some 1,
          map_entries := (map_entries mm_init)
            (0 := \<lparr>start_page = 0x20000, end_page = 0x20000, f_ptr = None, offset_pages = 0,
                   next_entry = Some 1\<rparr>),
          block_section_handle := (\<lambda>_. None)(0x2000 := Some 1),
          block_page_count := (\<lambda>_. 0)(0x2000 := 1),
          page_prot := (\<lambda>_. 0)(0x20000 := 3),
          host_trace := [NtCreateSection (Some 1), NtMapViewOfSection 1 0x2000 True,
                         VirtualProtect 0x20000 1 PAGE_READWRITE True]\<rparr>))"
  by (simp add: high_then_low_1_def mm_eval)

text \<open>
  Claim C1 (the map-entry list stays sorted, and no entry is lost, after any sequence of
  \<^verbatim>\<open>mm_mmap\<close> and \<^verbatim>\<open>mm_munmap\<close> calls; in particular after an insertion before the head).
  The code breaks it. After \<^verbatim>\<open>mm_init\<close>, a fixed mapping of page \<open>0x20000\<close> returns its
  address and makes cell 0 the head; its \<^verbatim>\<open>next\<close> is never written and still points to
  cell 1 of the free list, whose \<open>start_page\<close> is 0, so the list is not sorted. A second
  fixed mapping of page \<open>0x10000\<close>, below the head, takes cell 1, sets
  \<^verbatim>\<open>entry->next = mm->map_list->next\<close>, which is cell 1 itself, and makes it the head: the
  list is now the cycle on cell 1, and cell 0 with the first mapping is on no position
  of it.
\<close>

theorem C1_insert_before_head_loses_head:
  "returned high_then_low_1 = Some 0x20000000
   \<and> map_list (state_after high_then_low_1) = Some 0
   \<and> start_page (map_entries (state_after high_then_low_1) 0) = 0x20000
   \<and> nth_entry (map_entries (state_after high_then_low_1)) (map_list (state_after high_then_low_1)) 1
       = Some 1
   \<and> start_page (map_entries (state_after high_then_low_1) 1) = 0
   \<and> returned high_then_low_2 = Some 0x10000000
   \<and> map_list (state_after high_then_low_2) = Some 1
   \<and> next_entry (map_entries (state_after high_then_low_2) 1) = Some 1
   \<and> start_page (map_entries (state_after high_then_low_2) 0) = 0x20000
   \<and> (\<forall>n. nth_entry (map_entries (state_after high_then_low_2))
              (map_list (state_after high_then_low_2)) n = Some 1)"
proof -
  have first: "returned high_then_low_1 = Some 0x20000000
      \<and> map_list (state_after high_then_low_1) = Some 0
      \<and> start_page (map_entries (state_after high_then_low_1) 0) = 0x20000
      \<and> nth_entry (map_entries (state_after high_then_low_1))
           (map_list (state_after high_then_low_1)) 1 = Some 1
      \<and> start_page (map_entries (state_after high_then_low_1) 1) = 0"
    by (simp add: high_then_low_1_eval returned_def state_after_def mm_init_def MAX_MMAP_COUNT_def)
  have second: "returned high_then_low_2 = Some 0x10000000
      \<and> map_list (state_after high_then_low_2) = Some 1
      \<and> next_entry (map_entries (state_after high_then_low_2) 1) = Some 1
      \<and> start_page (map_entries (state_after high_then_low_2) 0) = 0x20000"
    by (simp add: high_then_low_2_def high_then_low_1_eval mm_eval)
  from second have cycle: "\<forall>n. nth_entry (map_entries (state_after high_then_low_2))
      (map_list (state_after high_then_low_2)) n = Some 1"
    by (simp add: nth_entry_self_loop)
  from first second cycle show ?thesis by blast
qed

section \<open>Sections and page counts\<close>

text \<open>
  Claim C2 (a block has a section handle if and only if its page count is not zero, after
  any sequence of \<^verbatim>\<open>mm_mmap\<close> and \<^verbatim>\<open>mm_munmap\<close> calls). The code breaks it. For the length
  \<open>0xFFFFFFFF\<close> the rounding \<^verbatim>\<open>ALIGN_TO_PAGE\<close> wraps to 0, the range checks pass, block 0 gets
  a section because its count is 0, and the page loop from page 1 to page 0 maps nothing:
  the call returns its address and leaves block 0 with a handle and the count 0.
\<close>

theorem C2_section_with_no_page:
  "ALIGN_TO_PAGE 0xFFFFFFFF = 0
   \<and> returned huge_length_map = Some 0x1000
   \<and> block_section_handle (state_after huge_length_map) 0 = Some 1
   \<and> block_page_count (state_after huge_length_map) 0 = 0"
  by (simp add: huge_length_map_def mm_eval)

section \<open>\<^verbatim>\<open>sys_mprotect\<close>\<close>

text \<open>
  Claim C5 (\<^verbatim>\<open>sys_mprotect\<close> returns 0 on every page-aligned range that is fully backed by
  contiguous map entries). The code breaks it. The validation walk takes an entry only
  when it starts exactly at \<open>last_page + 1\<close>: after a two-page mapping \<open>[0x20000, 0x20001]\<close>
  the request for its second page meets the entry, which starts one page earlier, and
  stops. The call returns \<open>-ENOMEM\<close> and changes nothing, although page \<open>0x20001\<close> is
  inside the head entry.
\<close>

theorem C5_mprotect_inside_entry_fails:
  "returned two_pages_map = Some 0x20000000
   \<and> map_list (state_after two_pages_map) = Some 0
   \<and> start_page (map_entries (state_after two_pages_map) 0) = 0x20000
   \<and> end_page (map_entries (state_after two_pages_map) 0) = 0x20001
   \<and> second_page_protect = Some (Return (- ENOMEM) (state_after two_pages_map))"
  by (simp add: two_pages_map_def second_page_protect_def mm_eval)

section \<open>\<^verbatim>\<open>mm_munmap\<close>\<close>

text \<open>
  Claim C10 (\<^verbatim>\<open>mm_munmap\<close> returns \<open>-EINVAL\<close> when the page-rounded range wraps or falls
  outside the user address space). The code breaks it. Rounding the length \<open>0xFFFFFFFF\<close>
  up to a page gives \<open>2^32\<close>, so the range from \<open>0x1000\<close> wraps; \<^verbatim>\<open>ALIGN_TO_PAGE\<close> computes 0
  instead, the range checks see an empty range, and the call returns 0.
\<close>

theorem C10_munmap_accepts_wrapping_length:
  "ALIGN_TO_PAGE 0xFFFFFFFF = 0
   \<and> mm_munmap host_ok 0x1000 0xFFFFFFFF mm_init = Some (Return 0 mm_init)"
  by (simp add: mm_eval)

section \<open>The ModR/M and SIB bytes\<close>

lemma and7: "(w :: u8) AND 7 = take_bit 3 w"
  by (simp add: take_bit_eq_mask mask_eq_exp_minus_1)

lemma uint_fields:
  "uint (GET_MODRM_MOD w) = uint w div 64 mod 8"
  "uint (GET_MODRM_R w) = uint w div 8 mod 8"
  "uint (GET_MODRM_RM w) = uint w mod 8"
  "uint (GET_SIB_SCALE w) = uint w div 64"
  "uint (GET_SIB_INDEX w) = uint w div 8 mod 8"
  "uint (GET_SIB_BASE w) = uint w mod 8"
  by (simp_all add: GET_MODRM_MOD_def GET_MODRM_R_def GET_MODRM_RM_def GET_SIB_SCALE_def
      GET_SIB_INDEX_def GET_SIB_BASE_def and7 unsigned_take_bit_eq unsigned_drop_bit_eq
      take_bit_eq_mod drop_bit_eq_div uint_div uint_mod)

lemma uint_byte: "0 \<le> k \<Longrightarrow> k < 256 \<Longrightarrow> uint (word_of_int k :: u8) = k"
  by (simp add: uint_word_of_int_eq take_bit_eq_mod)

lemma split3:
  fixes m r x :: int
  assumes "0 \<le> m" "0 \<le> r" "r < 8" "0 \<le> x" "x < 8"
  shows "(64 * m + 8 * r + x) mod 8 = x"
    and "(64 * m + 8 * r + x) div 8 mod 8 = r"
    and "(64 * m + 8 * r + x) div 64 = m"
proof -
  have a: "64 * m + 8 * r + x = 8 * (8 * m + r) + x" by simp
  have x0: "x div 8 = 0" "x mod 8 = x" using assms by simp_all
  have r0: "r div 8 = 0" "r mod 8 = r" using assms by simp_all
  have d: "(64 * m + 8 * r + x) div 8 = 8 * m + r"
    by (simp only: a div_mult_self4 x0)
  show "(64 * m + 8 * r + x) mod 8 = x"
    by (simp only: a mod_mult_self4 x0)
  show "(64 * m + 8 * r + x) div 8 mod 8 = r"
    by (simp only: d mod_mult_self4 r0)
  have "(64 * m + 8 * r + x) div 64 = (64 * m + 8 * r + x) div 8 div 8"
    by (simp add: zdiv_zmult2_eq)
  also have "\<dots> = m"
    by (simp only: d div_mult_self4 r0)
  finally show "(64 * m + 8 * r + x) div 64 = m" .
qed

lemma modrm_byte:
  assumes "0 \<le> m" "m < 4" "0 \<le> r" "r < 8" "0 \<le> x" "x < 8"
  shows "uint (GET_MODRM_MOD (word_of_int (push_bit 6 m + push_bit 3 r + x))) = m
    \<and> uint (GET_MODRM_R (word_of_int (push_bit 6 m + push_bit 3 r + x))) = r
    \<and> uint (GET_MODRM_RM (word_of_int (push_bit 6 m + push_bit 3 r + x))) = x
    \<and> uint (GET_SIB_SCALE (word_of_int (push_bit 6 m + push_bit 3 r + x))) = m
    \<and> uint (GET_SIB_INDEX (word_of_int (push_bit 6 m + push_bit 3 r + x))) = r
    \<and> uint (GET_SIB_BASE (word_of_int (push_bit 6 m + push_bit 3 r + x))) = x"
proof -
  have k: "0 \<le> 64 * m + 8 * r + x" "64 * m + 8 * r + x < 256" using assms by auto
  have e: "push_bit 6 m + push_bit 3 r + x = 64 * m + 8 * r + x"
    by (simp add: push_bit_eq_mult)
  have m8: "m mod 8 = m" using assms by simp
  show ?thesis
    unfolding e uint_fields uint_byte[OF k]
    using assms by (simp add: split3 m8)
qed

lemmas emit_defs = gen_modrm_sib_def gen_modrm_def gen_sib_def gen_byte_def gen_dword_def
  MODRM_PURE_REGISTER_def

text \<open>
  Claim C9 as stated (\<open>mod = 2\<close>, \<open>rm = 4\<close>, a SIB byte and a \<open>disp32\<close> whenever an index
  is present) fails for an operand with an index and no base: for \<^verbatim>\<open>[ecx*4 + 0x1000]\<close>
  the emitter writes \<open>mod = 0\<close>, \<open>rm = 4\<close> and a SIB byte whose base field is 5, the x86
  encoding of "no base, \<open>disp32\<close> follows".
\<close>

theorem C9_index_without_base_counterexample:
  "gen_modrm_sib [] 0 \<lparr>rm_base = - 1, rm_index = 1, rm_scale = 2, rm_flags = 0, rm_disp = 0x1000\<rparr>
     = Some [0x04, 0x8D, 0x00, 0x10, 0x00, 0x00]
   \<and> GET_MODRM_MOD 0x04 = 0 \<and> GET_MODRM_RM 0x04 = 4
   \<and> GET_SIB_SCALE 0x8D = 2 \<and> GET_SIB_INDEX 0x8D = 1 \<and> GET_SIB_BASE 0x8D = 5"
  by (simp add: emit_defs GET_MODRM_MOD_def GET_MODRM_RM_def GET_SIB_SCALE_def GET_SIB_INDEX_def
      GET_SIB_BASE_def)

text \<open>
  Claim C9, amended. For register numbers \<open>0..7\<close> (\<open>-1\<close> for "none"), a scale in \<open>0..3\<close>
  and an index that is not the stack pointer, \<^verbatim>\<open>gen_modrm_sib\<close> emits
  \<^item> for a register operand: one byte with \<open>mod = 3\<close>, \<open>rm = base\<close>;
  \<^item> with no base and no index: \<open>mod = 0\<close>, \<open>rm = 5\<close>, then \<open>disp32\<close>;
  \<^item> with an index and no base: \<open>mod = 0\<close>, \<open>rm = 4\<close>, a SIB byte with base field 5,
    then \<open>disp32\<close>;
  \<^item> with a base, when the base is the stack pointer or an index is present: \<open>mod = 2\<close>,
    \<open>rm = 4\<close>, a SIB byte (index field 4 when there is no index), then \<open>disp32\<close>;
  \<^item> otherwise: \<open>mod = 2\<close>, \<open>rm = base\<close>, then \<open>disp32\<close>.
  The \<open>reg\<close> field is \<open>r\<close> in every case.
\<close>

theorem C9_modrm_sib_encoding:
  assumes r: "0 \<le> r" "r < 8"
    and base: "- 1 \<le> rm_base rm" "rm_base rm < 8"
    and index: "- 1 \<le> rm_index rm" "rm_index rm < 8" "rm_index rm \<noteq> 4"
    and scale: "0 \<le> rm_scale rm" "rm_scale rm < 4"
  shows
    "(rm_flags rm = MODRM_PURE_REGISTER \<and> 0 \<le> rm_base rm \<longrightarrow>
        (\<exists>b. gen_modrm_sib out r rm = Some (out @ [b])
           \<and> uint (GET_MODRM_MOD b) = 3 \<and> uint (GET_MODRM_R b) = r
           \<and> uint (GET_MODRM_RM b) = rm_base rm))
     \<and> (rm_flags rm \<noteq> MODRM_PURE_REGISTER \<and> rm_base rm = - 1 \<and> rm_index rm = - 1 \<longrightarrow>
        (\<exists>b. gen_modrm_sib out r rm = Some (gen_dword (out @ [b]) (word_of_int (rm_disp rm)))
           \<and> uint (GET_MODRM_MOD b) = 0 \<and> uint (GET_MODRM_R b) = r
           \<and> uint (GET_MODRM_RM b) = 5))
     \<and> (rm_flags rm \<noteq> MODRM_PURE_REGISTER \<and> rm_base rm = - 1 \<and> rm_index rm \<noteq> - 1 \<longrightarrow>
        (\<exists>b sib. gen_modrm_sib out r rm
              = Some (gen_dword (out @ [b, sib]) (word_of_int (rm_disp rm)))
           \<and> uint (GET_MODRM_MOD b) = 0 \<and> uint (GET_MODRM_R b) = r
           \<and> uint (GET_MODRM_RM b) = 4
           \<and> uint (GET_SIB_SCALE sib) = rm_scale rm \<and> uint (GET_SIB_INDEX sib) = rm_index rm
           \<and> uint (GET_SIB_BASE sib) = 5))
     \<and> (rm_flags rm \<noteq> MODRM_PURE_REGISTER \<and> rm_base rm \<noteq> - 1
          \<and> (rm_base rm = 4 \<or> rm_index rm \<noteq> - 1) \<longrightarrow>
        (\<exists>b sib. gen_modrm_sib out r rm
              = Some (gen_dword (out @ [b, sib]) (word_of_int (rm_disp rm)))
           \<and> uint (GET_MODRM_MOD b) = 2 \<and> uint (GET_MODRM_R b) = r
           \<and> uint (GET_MODRM_RM b) = 4
           \<and> uint (GET_SIB_SCALE sib) = rm_scale rm
           \<and> uint (GET_SIB_INDEX sib) = (if rm_index rm = - 1 then 4 else rm_index rm)
           \<and> uint (GET_SIB_BASE sib) = rm_base rm))
     \<and> (rm_flags rm \<noteq> MODRM_PURE_REGISTER \<and> rm_base rm \<noteq> - 1 \<and> rm_base rm \<noteq> 4
          \<and> rm_index rm = - 1 \<longrightarrow>
        (\<exists>b. gen_modrm_sib out r rm = Some (gen_dword (out @ [b]) (word_of_int (rm_disp rm)))
           \<and> uint (GET_MODRM_MOD b) = 2 \<and> uint (GET_MODRM_R b) = r
           \<and> uint (GET_MODRM_RM b) = rm_base rm))"
proof (intro conjI impI)
  assume a: "rm_flags rm = MODRM_PURE_REGISTER \<and> 0 \<le> rm_base rm"
  have g: "gen_modrm_sib out r rm
      = Some (out @ [word_of_int (push_bit 6 3 + push_bit 3 r + rm_base rm)])"
    using a by (simp add: gen_modrm_sib_def gen_modrm_def gen_byte_def)
  have f: "uint (GET_MODRM_MOD (word_of_int (push_bit 6 3 + push_bit 3 r + rm_base rm))) = 3
      \<and> uint (GET_MODRM_R (word_of_int (push_bit 6 3 + push_bit 3 r + rm_base rm))) = r
      \<and> uint (GET_MODRM_RM (word_of_int (push_bit 6 3 + push_bit 3 r + rm_base rm))) = rm_base rm"
    using modrm_byte [of 3 r "rm_base rm"] r base a by simp
  from g f show "\<exists>b. gen_modrm_sib out r rm = Some (out @ [b])
           \<and> uint (GET_MODRM_MOD b) = 3 \<and> uint (GET_MODRM_R b) = r
           \<and> uint (GET_MODRM_RM b) = rm_base rm"
    by blast
next
  assume a: "rm_flags rm \<noteq> MODRM_PURE_REGISTER \<and> rm_base rm = - 1 \<and> rm_index rm = - 1"
  have g: "gen_modrm_sib out r rm
      = Some (gen_dword (out @ [word_of_int (push_bit 6 0 + push_bit 3 r + 5)])
                (word_of_int (rm_disp rm)))"
    using a by (simp add: gen_modrm_sib_def gen_modrm_def gen_byte_def)
  have f: "uint (GET_MODRM_MOD (word_of_int (push_bit 6 0 + push_bit 3 r + 5))) = 0
      \<and> uint (GET_MODRM_R (word_of_int (push_bit 6 0 + push_bit 3 r + 5))) = r
      \<and> uint (GET_MODRM_RM (word_of_int (push_bit 6 0 + push_bit 3 r + 5))) = 5"
    using modrm_byte [of 0 r 5] r by simp
  from g f show "\<exists>b. gen_modrm_sib out r rm
             = Some (gen_dword (out @ [b]) (word_of_int (rm_disp rm)))
           \<and> uint (GET_MODRM_MOD b) = 0 \<and> uint (GET_MODRM_R b) = r
           \<and> uint (GET_MODRM_RM b) = 5"
    by blast
next
  assume a: "rm_flags rm \<noteq> MODRM_PURE_REGISTER \<and> rm_base rm = - 1 \<and> rm_index rm \<noteq> - 1"
  have i: "0 \<le> rm_index rm" using a index by simp
  have g: "gen_modrm_sib out r rm
      = Some (gen_dword (out @ [word_of_int (push_bit 6 0 + push_bit 3 r + 4),
                 word_of_int (push_bit 6 (rm_scale rm) + push_bit 3 (rm_index rm) + 5)])
                (word_of_int (rm_disp rm)))"
    using a index by (simp add: gen_modrm_sib_def gen_modrm_def gen_sib_def gen_byte_def)
  have f: "uint (GET_MODRM_MOD (word_of_int (push_bit 6 0 + push_bit 3 r + 4))) = 0
      \<and> uint (GET_MODRM_R (word_of_int (push_bit 6 0 + push_bit 3 r + 4))) = r
      \<and> uint (GET_MODRM_RM (word_of_int (push_bit 6 0 + push_bit 3 r + 4))) = 4"
    using modrm_byte [of 0 r 4] r by simp
  have h: "uint (GET_SIB_SCALE (word_of_int (push_bit 6 (rm_scale rm) + push_bit 3 (rm_index rm) + 5)))
        = rm_scale rm
      \<and> uint (GET_SIB_INDEX (word_of_int (push_bit 6 (rm_scale rm) + push_bit 3 (rm_index rm) + 5)))
        = rm_index rm
      \<and> uint (GET_SIB_BASE (word_of_int (push_bit 6 (rm_scale rm) + push_bit 3 (rm_index rm) + 5)))
        = 5"
    using modrm_byte [of "rm_scale rm" "rm_index rm" 5] i index scale by simp
  from g f h show "\<exists>b sib. gen_modrm_sib out r rm
              = Some (gen_dword (out @ [b, sib]) (word_of_int (rm_disp rm)))
           \<and> uint (GET_MODRM_MOD b) = 0 \<and> uint (GET_MODRM_R b) = r
           \<and> uint (GET_MODRM_RM b) = 4
           \<and> uint (GET_SIB_SCALE sib) = rm_scale rm \<and> uint (GET_SIB_INDEX sib) = rm_index rm
           \<and> uint (GET_SIB_BASE sib) = 5"
    by blast
next
  assume a: "rm_flags rm \<noteq> MODRM_PURE_REGISTER \<and> rm_base rm \<noteq> - 1
          \<and> (rm_base rm = 4 \<or> rm_index rm \<noteq> - 1)"
  define ix where "ix = (if rm_index rm = - 1 then 4 else rm_index rm)"
  have i: "0 \<le> ix" "ix < 8" using index by (auto simp: ix_def)
  have b: "0 \<le> rm_base rm" using a base by simp
  have g: "gen_modrm_sib out r rm
      = Some (gen_dword (out @ [word_of_int (push_bit 6 2 + push_bit 3 r + 4),
                 word_of_int (push_bit 6 (rm_scale rm) + push_bit 3 ix + rm_base rm)])
                (word_of_int (rm_disp rm)))"
    using a index by (auto simp: gen_modrm_sib_def gen_modrm_def gen_sib_def gen_byte_def ix_def)
  have f: "uint (GET_MODRM_MOD (word_of_int (push_bit 6 2 + push_bit 3 r + 4))) = 2
      \<and> uint (GET_MODRM_R (word_of_int (push_bit 6 2 + push_bit 3 r + 4))) = r
      \<and> uint (GET_MODRM_RM (word_of_int (push_bit 6 2 + push_bit 3 r + 4))) = 4"
    using modrm_byte [of 2 r 4] r by simp
  have h: "uint (GET_SIB_SCALE (word_of_int (push_bit 6 (rm_scale rm) + push_bit 3 ix + rm_base rm)))
        = rm_scale rm
      \<and> uint (GET_SIB_INDEX (word_of_int (push_bit 6 (rm_scale rm) + push_bit 3 ix + rm_base rm)))
        = ix
      \<and> uint (GET_SIB_BASE (word_of_int (push_bit 6 (rm_scale rm) + push_bit 3 ix + rm_base rm)))
        = rm_base rm"
    using modrm_byte [of "rm_scale rm" ix "rm_base rm"] i b base scale by simp
  from g f h show "\<exists>b sib. gen_modrm_sib out r rm
              = Some (gen_dword (out @ [b, sib]) (word_of_int (rm_disp rm)))
           \<and> uint (GET_MODRM_MOD b) = 2 \<and> uint (GET_MODRM_R b) = r
           \<and> uint (GET_MODRM_RM b) = 4
           \<and> uint (GET_SIB_SCALE sib) = rm_scale rm
           \<and> uint (GET_SIB_INDEX sib) = (if rm_index rm = - 1 then 4 else rm_index rm)
           \<and> uint (GET_SIB_BASE sib) = rm_base rm"
    unfolding ix_def [symmetric] by blast
next
  assume a: "rm_flags rm \<noteq> MODRM_PURE_REGISTER \<and> rm_base rm \<noteq> - 1 \<and> rm_base rm \<noteq> 4
          \<and> rm_index rm = - 1"
  have b: "0 \<le> rm_base rm" using a base by simp
  have g: "gen_modrm_sib out r rm
      = Some (gen_dword (out @ [word_of_int (push_bit 6 2 + push_bit 3 r + rm_base rm)])
                (word_of_int (rm_disp rm)))"
    using a by (simp add: gen_modrm_sib_def gen_modrm_def gen_byte_def)
  have f: "uint (GET_MODRM_MOD (word_of_int (push_bit 6 2 + push_bit 3 r + rm_base rm))) = 2
      \<and> uint (GET_MODRM_R (word_of_int (push_bit 6 2 + push_bit 3 r + rm_base rm))) = r
      \<and> uint (GET_MODRM_RM (word_of_int (push_bit 6 2 + push_bit 3 r + rm_base rm))) = rm_base rm"
    using modrm_byte [of 2 r "rm_base rm"] r b base by simp
  from g f show "\<exists>b. gen_modrm_sib out r rm
             = Some (gen_dword (out @ [b]) (word_of_int (rm_disp rm)))
           \<and> uint (GET_MODRM_MOD b) = 2 \<and> uint (GET_MODRM_R b) = r
           \<and> uint (GET_MODRM_RM b) = rm_base rm"
    by blast
qed

text \<open>
  The five cases at \<^verbatim>\<open>ecx, edx\<close>; \<^verbatim>\<open>ecx, [64]\<close>; \<^verbatim>\<open>ecx, [ecx*4 + 64]\<close>;
  \<^verbatim>\<open>ecx, [esp + 8]\<close>; \<^verbatim>\<open>ecx, [ebx + 8]\<close>.
\<close>

theorem C9_modrm_sib_encoding_witness:
  "(\<exists>b. gen_modrm_sib [] 1 \<lparr>rm_base = 2, rm_index = - 1, rm_scale = 0, rm_flags = 1, rm_disp = 0\<rparr>
        = Some ([] @ [b])
      \<and> uint (GET_MODRM_MOD b) = 3 \<and> uint (GET_MODRM_R b) = 1 \<and> uint (GET_MODRM_RM b) = 2)
   \<and> (\<exists>b. gen_modrm_sib [] 1 \<lparr>rm_base = - 1, rm_index = - 1, rm_scale = 0, rm_flags = 0, rm_disp = 64\<rparr>
        = Some (gen_dword ([] @ [b]) 64)
      \<and> uint (GET_MODRM_MOD b) = 0 \<and> uint (GET_MODRM_R b) = 1 \<and> uint (GET_MODRM_RM b) = 5)
   \<and> (\<exists>b sib. gen_modrm_sib [] 1 \<lparr>rm_base = - 1, rm_index = 1, rm_scale = 2, rm_flags = 0, rm_disp = 64\<rparr>
        = Some (gen_dword ([] @ [b, sib]) 64)
      \<and> uint (GET_MODRM_MOD b) = 0 \<and> uint (GET_MODRM_R b) = 1 \<and> uint (GET_MODRM_RM b) = 4
      \<and> uint (GET_SIB_SCALE sib) = 2 \<and> uint (GET_SIB_INDEX sib) = 1 \<and> uint (GET_SIB_BASE sib) = 5)
   \<and> (\<exists>b sib. gen_modrm_sib [] 1 \<lparr>rm_base = 4, rm_index = - 1, rm_scale = 0, rm_flags = 0, rm_disp = 8\<rparr>
        = Some (gen_dword ([] @ [b, sib]) 8)
      \<and> uint (GET_MODRM_MOD b) = 2 \<and> uint (GET_MODRM_R b) = 1 \<and> uint (GET_MODRM_RM b) = 4
      \<and> uint (GET_SIB_SCALE sib) = 0 \<and> uint (GET_SIB_INDEX sib) = 4 \<and> uint (GET_SIB_BASE sib) = 4)
   \<and> (\<exists>b. gen_modrm_sib [] 1 \<lparr>rm_base = 3, rm_index = - 1, rm_scale = 0, rm_flags = 0, rm_disp = 8\<rparr>
        = Some (gen_dword ([] @ [b]) 8)
      \<and> uint (GET_MODRM_MOD b) = 2 \<and> uint (GET_MODRM_R b) = 1 \<and> uint (GET_MODRM_RM b) = 3)"
  using
    C9_modrm_sib_encoding [of 1 "\<lparr>rm_base = 2, rm_index = - 1, rm_scale = 0, rm_flags = 1, rm_disp = 0\<rparr>" "[]"]
    C9_modrm_sib_encoding [of 1 "\<lparr>rm_base = - 1, rm_index = - 1, rm_scale = 0, rm_flags = 0, rm_disp = 64\<rparr>" "[]"]
    C9_modrm_sib_encoding [of 1 "\<lparr>rm_base = - 1, rm_index = 1, rm_scale = 2, rm_flags = 0, rm_disp = 64\<rparr>" "[]"]
    C9_modrm_sib_encoding [of 1 "\<lparr>rm_base = 4, rm_index = - 1, rm_scale = 0, rm_flags = 0, rm_disp = 8\<rparr>" "[]"]
    C9_modrm_sib_encoding [of 1 "\<lparr>rm_base = 3, rm_index = - 1, rm_scale = 0, rm_flags = 0, rm_disp = 8\<rparr>" "[]"]
  by (simp add: MODRM_PURE_REGISTER_def)

section \<open>The block index of the translator\<close>

lemma hash_block_pc_less: "hash_block_pc pc < DBT_BLOCK_HASH_BUCKETS"
proof -
  have "(pc + push_bit 3 pc + push_bit 9 pc) mod 4096 < (4096 :: u32)"
    by (rule word_mod_less_divisor) simp
  then show ?thesis
    by (simp add: hash_block_pc_def DBT_BLOCK_HASH_BUCKETS_def word_less_nat_alt)
qed

lemma concat_single:
  "h < n \<Longrightarrow> (\<And>b. b < n \<Longrightarrow> b \<noteq> h \<Longrightarrow> g b = []) \<Longrightarrow> concat (map g [0..<n]) = g h"
proof (induction n)
  case 0
  then show ?case by simp
next
  case (Suc n)
  show ?case
  proof (cases "h = n")
    case True
    have "concat (map g [0..<n]) = []"
      using Suc.prems(2) True by (auto simp: concat_eq_Nil_conv)
    with True show ?thesis by simp
  next
    case False
    with Suc.prems have "h < n" by simp
    moreover have "g n = []" using Suc.prems(2) [of n] False by simp
    ultimately show ?thesis using Suc.IH Suc.prems(2) by simp
  qed
qed

lemma blocks_with_pc_bucket:
  assumes "index_ok d"
  shows "blocks_with_pc d pc
    = filter (\<lambda>block. block_pc (blocks d block) = pc) (block_hash d (hash_block_pc pc))"
proof -
  let ?P = "\<lambda>block. block_pc (blocks d block) = pc"
  have other: "filter ?P (block_hash d b) = []"
    if "b < DBT_BLOCK_HASH_BUCKETS" "b \<noteq> hash_block_pc pc" for b
    using assms that by (auto simp: index_ok_def filter_empty_conv)
  have "blocks_with_pc d pc
      = concat (map (\<lambda>b. filter ?P (block_hash d b)) [0..<DBT_BLOCK_HASH_BUCKETS])"
    by (simp add: blocks_with_pc_def index_blocks_def filter_concat comp_def)
  also have "\<dots> = filter ?P (block_hash d (hash_block_pc pc))"
    by (rule concat_single) (use other hash_block_pc_less in auto)
  finally show ?thesis .
qed

lemma filter_key_empty: "k a \<notin> set (map k xs) \<Longrightarrow> filter (\<lambda>i. k i = k a) xs = []"
proof -
  assume n: "k a \<notin> set (map k xs)"
  have "\<forall>x \<in> set xs. k x \<noteq> k a"
  proof
    fix x assume "x \<in> set xs"
    then have "k x \<in> set (map k xs)" by simp
    with n show "k x \<noteq> k a" by metis
  qed
  then show ?thesis by (simp add: filter_empty_conv)
qed

lemma filter_distinct_key:
  "distinct (map k xs) \<Longrightarrow> length (filter (\<lambda>i. k i = p) xs) \<le> 1"
proof (induction xs)
  case Nil
  then show ?case by simp
next
  case (Cons a xs)
  show ?case
  proof (cases "k a = p")
    case True
    from Cons.prems have "k a \<notin> set (map k xs)" by simp
    from filter_key_empty [OF this] True show ?thesis by simp
  next
    case False
    with Cons show ?thesis by simp
  qed
qed

lemma find_Some_filter:
  "distinct (map k xs) \<Longrightarrow> find (\<lambda>i. k i = p) xs = Some b \<Longrightarrow> filter (\<lambda>i. k i = p) xs = [b]"
proof (induction xs)
  case Nil
  then show ?case by simp
next
  case (Cons a xs)
  show ?case
  proof (cases "k a = p")
    case True
    from Cons.prems have "k a \<notin> set (map k xs)" by simp
    from filter_key_empty [OF this] True Cons.prems(2) show ?thesis by simp
  next
    case False
    with Cons show ?thesis by simp
  qed
qed

lemma find_None_filter:
  "find (\<lambda>i. k i = p) xs = None \<longleftrightarrow> filter (\<lambda>i. k i = p) xs = []"
  by (auto simp: find_None_iff filter_empty_conv)

lemma index_ok_init: "index_ok (dbt_init K)"
  by (simp add: index_ok_def dbt_init_def)

lemma index_ok_flush: "index_ok (dbt_flush K d)"
  by (simp add: index_ok_def dbt_flush_def)

lemma translate_shape:
  assumes "dbt_translate K emit pc d = Some (block, d1)"
  shows "\<exists>d0. (d0 = d \<or> d0 = dbt_flush K d)
     \<and> block = blocks_count d0 \<and> blocks_count d1 = Suc (blocks_count d0)
     \<and> block_hash d1 = block_hash d0
     \<and> blocks d1 = (blocks d0)(block := \<lparr>block_pc = pc,
           block_start = (out_ptr d0 + DBT_OUT_ALIGN - 1) AND - DBT_OUT_ALIGN\<rparr>)"
  using assms
  by (auto simp: dbt_translate_def alloc_block_def translate_into_def Let_def
      split: if_splits option.splits prod.splits)

lemma index_ok_find_next:
  assumes ok: "index_ok d" and step: "dbt_find_next K emit pc d = Some (a, d')"
  shows "index_ok d'"
proof (cases "find (\<lambda>block. block_pc (blocks d block) = pc) (block_hash d (hash_block_pc pc))")
  case (Some b)
  with step have "d' = d" by (simp add: dbt_find_next_def)
  with ok show ?thesis by simp
next
  case None
  with step obtain block d1 where tr: "dbt_translate K emit pc d = Some (block, d1)"
    and d': "d' = d1\<lparr>block_hash := (block_hash d1)
                 (hash_block_pc pc := block # block_hash d1 (hash_block_pc pc))\<rparr>"
    by (auto simp: dbt_find_next_def split: option.splits prod.splits)
  from translate_shape [OF tr] obtain d0 where d0: "d0 = d \<or> d0 = dbt_flush K d"
    and blk: "block = blocks_count d0" and cnt: "blocks_count d1 = Suc (blocks_count d0)"
    and hsh: "block_hash d1 = block_hash d0"
    and bls: "blocks d1 = (blocks d0)(block := \<lparr>block_pc = pc,
           block_start = (out_ptr d0 + DBT_OUT_ALIGN - 1) AND - DBT_OUT_ALIGN\<rparr>)"
    by blast
  have ok0: "index_ok d0" using d0 ok index_ok_flush by auto
  have none0: "\<forall>i \<in> set (block_hash d0 (hash_block_pc pc)). block_pc (blocks d0 i) \<noteq> pc"
  proof (cases "d0 = d")
    case True
    with None show ?thesis by (simp add: find_None_iff)
  next
    case False
    with d0 have "d0 = dbt_flush K d" by simp
    then show ?thesis using hash_block_pc_less by (simp add: dbt_flush_def)
  qed
  have old: "i < block" if "i \<in> set (block_hash d0 b)" "b < DBT_BLOCK_HASH_BUCKETS" for i b
    using ok0 that blk by (auto simp: index_ok_def)
  show ?thesis
    unfolding index_ok_def
  proof (intro allI impI conjI ballI)
    fix b i
    assume b: "b < DBT_BLOCK_HASH_BUCKETS" and i: "i \<in> set (block_hash d' b)"
    show "i < blocks_count d'"
      using i b old [of i b] blk cnt hsh d' by (auto split: if_splits)
    show "hash_block_pc (block_pc (blocks d' i)) = b"
    proof (cases "i = block")
      case True
      then have "b = hash_block_pc pc"
        using i b old [of i b] hsh d' by (auto split: if_splits)
      with True show ?thesis by (simp add: d' bls)
    next
      case False
      then have "i \<in> set (block_hash d0 b)" using i hsh d' by (auto split: if_splits)
      with ok0 b False show ?thesis by (auto simp: index_ok_def d' bls)
    qed
  next
    fix b
    assume b: "b < DBT_BLOCK_HASH_BUCKETS"
    have same: "map (\<lambda>i. block_pc (blocks d' i)) (block_hash d0 b)
        = map (\<lambda>i. block_pc (blocks d0 i)) (block_hash d0 b)"
      using old [of _ b] b by (auto simp: d' bls)
    have dist0: "distinct (map (\<lambda>i. block_pc (blocks d0 i)) (block_hash d0 b))"
      using ok0 b by (simp add: index_ok_def)
    show "distinct (map (\<lambda>i. block_pc (blocks d' i)) (block_hash d' b))"
    proof (cases "b = hash_block_pc pc")
      case True
      have "map (\<lambda>i. block_pc (blocks d' i)) (block_hash d' b)
          = pc # map (\<lambda>i. block_pc (blocks d0 i)) (block_hash d0 b)"
        unfolding same [symmetric] using True by (simp add: d' hsh bls)
      moreover have "pc \<notin> set (map (\<lambda>i. block_pc (blocks d0 i)) (block_hash d0 b))"
        using none0 True by auto
      ultimately show ?thesis using dist0 by simp
    next
      case False
      then have "block_hash d' b = block_hash d0 b" by (simp add: d' hsh)
      then show ?thesis using dist0 unfolding same [symmetric] by simp
    qed
  qed
qed

lemma reachable_index_ok: "reachable K d \<Longrightarrow> index_ok d"
  by (induction rule: reachable.induct) (auto intro: index_ok_init index_ok_flush index_ok_find_next)

text \<open>
  Claim C8. In every state of the translator the index holds at most one block for a
  \<open>pc\<close>. \<^verbatim>\<open>dbt_find_next\<close> returns the start of that block, and leaves the state as it
  is, when there is one; when there is none and the call returns, a block was translated
  and it is then the one block of the index for \<open>pc\<close>, whose start is returned.
  \<^verbatim>\<open>dbt_flush\<close> empties every bucket.
\<close>

theorem C8_one_block_per_pc:
  assumes "reachable K d"
  shows "length (blocks_with_pc d pc) \<le> 1
    \<and> (\<forall>b. blocks_with_pc d pc = [b] \<longrightarrow>
          dbt_find_next K emit pc d = Some (block_start (blocks d b), d))
    \<and> (\<forall>a d'. blocks_with_pc d pc = [] \<and> dbt_find_next K emit pc d = Some (a, d') \<longrightarrow>
          (\<exists>b d1. dbt_translate K emit pc d = Some (b, d1) \<and> blocks_with_pc d' pc = [b]
             \<and> block_pc (blocks d' b) = pc \<and> a = block_start (blocks d' b)))
    \<and> (\<forall>b < DBT_BLOCK_HASH_BUCKETS. block_hash (dbt_flush K d) b = [])
    \<and> blocks_with_pc (dbt_flush K d) pc = []"
proof -
  let ?P = "\<lambda>block. block_pc (blocks d block) = pc"
  let ?h = "hash_block_pc pc"
  have ok: "index_ok d" using assms by (rule reachable_index_ok)
  have bucket: "blocks_with_pc d pc = filter ?P (block_hash d ?h)"
    using ok by (rule blocks_with_pc_bucket)
  have dist: "distinct (map (\<lambda>i. block_pc (blocks d i)) (block_hash d ?h))"
    using ok hash_block_pc_less by (simp add: index_ok_def)
  have one: "length (blocks_with_pc d pc) \<le> 1"
    unfolding bucket using dist by (rule filter_distinct_key)
  have hit: "dbt_find_next K emit pc d = Some (block_start (blocks d b), d)"
    if "blocks_with_pc d pc = [b]" for b
  proof -
    from that have ne: "filter ?P (block_hash d ?h) \<noteq> []" by (simp add: bucket)
    then obtain b' where f: "find ?P (block_hash d ?h) = Some b'"
      using find_None_filter [of "\<lambda>i. block_pc (blocks d i)" pc "block_hash d ?h"]
      by (cases "find ?P (block_hash d ?h)") auto
    from find_Some_filter [OF dist f] that have "b' = b" by (simp add: bucket)
    with f show ?thesis by (simp add: dbt_find_next_def)
  qed
  have miss: "\<exists>b d1. dbt_translate K emit pc d = Some (b, d1) \<and> blocks_with_pc d' pc = [b]
             \<and> block_pc (blocks d' b) = pc \<and> a = block_start (blocks d' b)"
    if e: "blocks_with_pc d pc = []" and step: "dbt_find_next K emit pc d = Some (a, d')" for a d'
  proof -
    from e have none: "find ?P (block_hash d ?h) = None"
      using find_None_filter [of "\<lambda>i. block_pc (blocks d i)" pc "block_hash d ?h"]
      by (simp add: bucket)
    with step obtain b d1 where tr: "dbt_translate K emit pc d = Some (b, d1)"
      and d': "d' = d1\<lparr>block_hash := (block_hash d1)(?h := b # block_hash d1 ?h)\<rparr>"
      and a: "a = block_start (blocks d1 b)"
      by (auto simp: dbt_find_next_def split: option.splits prod.splits)
    from translate_shape [OF tr] have pcb: "block_pc (blocks d1 b) = pc" by auto
    have ok': "index_ok d'" using ok step by (rule index_ok_find_next)
    have dist': "distinct (map (\<lambda>i. block_pc (blocks d' i)) (block_hash d' ?h))"
      using ok' hash_block_pc_less by (simp add: index_ok_def)
    have "find (\<lambda>i. block_pc (blocks d' i) = pc) (block_hash d' ?h) = Some b"
      using pcb by (simp add: d')
    from find_Some_filter [OF dist' this]
    have "blocks_with_pc d' pc = [b]" by (simp add: blocks_with_pc_bucket [OF ok'])
    with tr pcb a show ?thesis by (auto simp: d')
  qed
  have fl: "\<forall>b < DBT_BLOCK_HASH_BUCKETS. block_hash (dbt_flush K d) b = []"
    by (simp add: dbt_flush_def)
  have "blocks_with_pc (dbt_flush K d) pc = []"
    using hash_block_pc_less fl by (simp add: blocks_with_pc_bucket [OF index_ok_flush])
  with one hit miss fl show ?thesis by blast
qed

text \<open>
  A first lookup of \<open>pc = 0x10000\<close> after \<^verbatim>\<open>dbt_init\<close> translates block 0; a second
  lookup finds it.
\<close>

lemma first_lookup_eval:
  "first_lookup = Some (0x71000000,
     (dbt_init dbt_config0)\<lparr>block_hash := (\<lambda>_. [])(0 := [0]),
        blocks := (\<lambda>_. \<lparr>block_pc = 0, block_start = 0\<rparr>)
                    (0 := \<lparr>block_pc = 0x10000, block_start = 0x71000000\<rparr>),
        blocks_count := 1, out_ptr := 0x71000010\<rparr>)"
  by (simp add: first_lookup_def dbt_find_next_def dbt_translate_def alloc_block_def
      translate_into_def dbt_init_def dbt_config0_def emit0_def hash_block_pc_def
      DBT_BLOCK_MAXSIZE_def DBT_OUT_ALIGN_def word_sless_alt)

theorem C8_one_block_per_pc_witness:
  "reachable dbt_config0 (dbt_init dbt_config0)
   \<and> blocks_with_pc (dbt_init dbt_config0) 0x10000 = []
   \<and> first_lookup = Some (0x71000000, after_first_lookup)
   \<and> reachable dbt_config0 after_first_lookup
   \<and> blocks_with_pc after_first_lookup 0x10000 = [0]
   \<and> length (blocks_with_pc after_first_lookup 0x10000) \<le> 1
   \<and> dbt_find_next dbt_config0 emit0 0x10000 after_first_lookup
        = Some (0x71000000, after_first_lookup)
   \<and> blocks_with_pc (dbt_flush dbt_config0 after_first_lookup) 0x10000 = []"
proof -
  have r0: "reachable dbt_config0 (dbt_init dbt_config0)" by (rule reachable.init)
  have e0: "blocks_with_pc (dbt_init dbt_config0) 0x10000 = []"
    unfolding blocks_with_pc_bucket [OF index_ok_init] by (simp add: dbt_init_def)
  have f: "first_lookup = Some (0x71000000, after_first_lookup)"
    by (simp add: after_first_lookup_def first_lookup_eval)
  then have step: "dbt_find_next dbt_config0 emit0 0x10000 (dbt_init dbt_config0)
      = Some (0x71000000, after_first_lookup)"
    by (simp add: first_lookup_def)
  have r1: "reachable dbt_config0 after_first_lookup"
    using r0 step by (rule reachable.find_next)
  have tr: "\<exists>d1. dbt_translate dbt_config0 emit0 0x10000 (dbt_init dbt_config0) = Some (0, d1)"
    by (simp add: dbt_translate_def alloc_block_def translate_into_def dbt_init_def
        dbt_config0_def emit0_def DBT_BLOCK_MAXSIZE_def word_sless_alt)
  from C8_one_block_per_pc [OF r0, of "0x10000" emit0] e0 step
  have "\<exists>b d1. dbt_translate dbt_config0 emit0 0x10000 (dbt_init dbt_config0) = Some (b, d1)
      \<and> blocks_with_pc after_first_lookup 0x10000 = [b]"
    by blast
  with tr have one: "blocks_with_pc after_first_lookup 0x10000 = [0]"
    by auto
  from C8_one_block_per_pc [OF r1, of "0x10000" emit0] one
  have "length (blocks_with_pc after_first_lookup 0x10000) \<le> 1"
    and "dbt_find_next dbt_config0 emit0 0x10000 after_first_lookup
        = Some (block_start (blocks after_first_lookup 0), after_first_lookup)"
    and "blocks_with_pc (dbt_flush dbt_config0 after_first_lookup) 0x10000 = []"
    by blast+
  moreover have "block_start (blocks after_first_lookup 0) = 0x71000000"
    by (simp add: after_first_lookup_def first_lookup_eval)
  ultimately show ?thesis using r0 e0 f r1 one by (simp only:)
qed

section \<open>\<^verbatim>\<open>mm_handle_page_fault\<close>\<close>



















section \<open>Page alignment\<close>





section \<open>The program break\<close>

text \<open>
  Claim C6 (on growth \<^verbatim>\<open>sys_brk\<close> maps the range from the old break to the new one; the
  break is what the calls established). The code breaks it: the test
  \<^verbatim>\<open>sys_mmap(...) < 0\<close> of line 784 compares a pointer with the null pointer and is never
  true, so the branch that returns \<^verbatim>\<open>-ENOMEM\<close> is never taken and the break is set also
  when the mapping failed. After \<^verbatim>\<open>mm_init\<close>, \<^verbatim>\<open>sys_brk(0x80001000)\<close> asks \<^verbatim>\<open>mm_mmap\<close> for
  the range \<open>[0, 0x80001000)\<close>, which is refused with \<^verbatim>\<open>-EINVAL\<close> and maps nothing; the
  call returns \<open>0x80001000\<close> and leaves the break there, outside the user address space.
  And on a host that creates no section, \<^verbatim>\<open>sys_brk(0x3000)\<close> gets \<^verbatim>\<open>-ENOMEM\<close> from
  \<^verbatim>\<open>mm_mmap\<close>, returns \<open>0x3000\<close> and leaves the break at \<open>0x3000\<close> with an empty map list
  and no page protected.
\<close>

theorem C6_brk_set_although_mmap_failed:
  "brk mm_init = 0
   \<and> brk_mmap host_ok config0 0x80001000 mm_init = Some (Return (- EINVAL) mm_init)
   \<and> sys_brk host_ok config0 0x80001000 mm_init
       = Some (Return 0x80001000 (mm_init\<lparr>brk := 0x80001000\<rparr>))
   \<and> ADDRESS_SPACE_HIGH < 0x80001000
   \<and> brk_mmap host_no_section config0 0x3000 mm_init
       = Some (Return (- ENOMEM) (mm_init\<lparr>host_trace := [NtCreateSection None]\<rparr>))
   \<and> sys_brk host_no_section config0 0x3000 mm_init
       = Some (Return 0x3000 (mm_init\<lparr>brk := 0x3000, host_trace := [NtCreateSection None]\<rparr>))
   \<and> map_list mm_init = None \<and> page_prot mm_init = (\<lambda>_. 0)"
  by (simp add: brk_mmap_def host_no_section_def mm_eval upt_conv_Cons)

section \<open>The errors of \<^verbatim>\<open>mm_mmap\<close>\<close>































section \<open>The search for free pages\<close>

lemma find_free_loop_skip:
  assumes "\<forall>i. k \<le> i \<and> i < n \<longrightarrow> start_page (es i) < lowp
             \<and> next_entry (es i) = (if i + 1 < n then Some (i + 1) else None)"
    and "k < n"
  shows "find_free_loop es count lowp highp last_pg (Some k)
           = Some (if highp - last_pg \<ge> count then last_pg else 0)"
  using assms
proof (induction "n - k" arbitrary: k)
  case 0
  then show ?case by simp
next
  case (Suc d)
  from Suc.prems have k: "start_page (es k) < lowp"
    "next_entry (es k) = (if k + 1 < n then Some (k + 1) else None)" by auto
  from k(1) have nl: "\<not> lowp \<le> start_page (es k)" by simp
  show ?case
  proof (cases "k + 1 < n")
    case True
    have "find_free_loop es count lowp highp last_pg (Some k)
        = find_free_loop es count lowp highp last_pg (Some (k + 1))"
      using nl k(2) True by (subst find_free_loop.simps) simp
    moreover have "find_free_loop es count lowp highp last_pg (Some (k + 1))
           = Some (if highp - last_pg \<ge> count then last_pg else 0)"
    proof (rule Suc.hyps(1))
      show "d = n - (k + 1)" using Suc.hyps(2) by simp
      show "\<forall>i. k + 1 \<le> i \<and> i < n \<longrightarrow> start_page (es i) < lowp
             \<and> next_entry (es i) = (if i + 1 < n then Some (i + 1) else None)"
        using Suc.prems(1) by simp
      show "k + 1 < n" by (rule True)
    qed
    ultimately show ?thesis by simp
  next
    case False
    have "find_free_loop es count lowp highp last_pg (Some k)
        = find_free_loop es count lowp highp last_pg None"
      using nl k(2) False by (subst find_free_loop.simps) simp
    then show ?thesis by (simp add: find_free_loop.simps)
  qed
qed

lemma insert_loop_skip:
  assumes "\<forall>i. k \<le> i \<and> i < n \<longrightarrow>
             next_entry (map_entries s i) = (if i + 1 < n then Some (i + 1) else None)"
    and "\<forall>i. k < i \<and> i < n \<longrightarrow> start_page (map_entries s i) \<le> end_pg"
    and "k < n"
  shows "insert_loop entry end_pg (Some k) s
           = Some (s\<lparr>map_entries := link_after (map_entries s) entry (n - 1)\<rparr>)"
  using assms
proof (induction "n - k" arbitrary: k)
  case 0
  then show ?case by simp
next
  case (Suc d)
  from Suc.prems have k: "next_entry (map_entries s k) = (if k + 1 < n then Some (k + 1) else None)"
    by auto
  show ?case
  proof (cases "k + 1 < n")
    case True
    with Suc.prems(2) have "start_page (map_entries s (k + 1)) \<le> end_pg" by simp
    then have "\<not> insert_here (map_entries s) k end_pg"
      using k True by (simp add: insert_here_def)
    then have "insert_loop entry end_pg (Some k) s = insert_loop entry end_pg (Some (k + 1)) s"
      using k True by (subst insert_loop.simps) simp
    moreover have "insert_loop entry end_pg (Some (k + 1)) s
           = Some (s\<lparr>map_entries := link_after (map_entries s) entry (n - 1)\<rparr>)"
    proof (rule Suc.hyps(1))
      show "d = n - (k + 1)" using Suc.hyps(2) by simp
      show "\<forall>i. k + 1 \<le> i \<and> i < n \<longrightarrow>
             next_entry (map_entries s i) = (if i + 1 < n then Some (i + 1) else None)"
        using Suc.prems(1) by simp
      show "\<forall>i. k + 1 < i \<and> i < n \<longrightarrow> start_page (map_entries s i) \<le> end_pg"
        using Suc.prems(2) by simp
      show "k + 1 < n" by (rule True)
    qed
    ultimately show ?thesis by simp
  next
    case False
    with Suc.prems(3) have "k = n - 1" by simp
    moreover have "insert_here (map_entries s) k end_pg"
      using k False by (simp add: insert_here_def)
    ultimately show ?thesis by (subst insert_loop.simps) simp
  qed
qed

lemma straddle_state:
  "returned straddle_map = Some 0x03FFF000"
  "map_list (state_after straddle_map) = Some 0"
  "map_free_list (state_after straddle_map) = Some 1"
  "map_entries (state_after straddle_map) =
     (map_entries mm_init)
            (0 := \<lparr>start_page = 0x3FFF, end_page = 0x4000, f_ptr = None, offset_pages = 0,
                   next_entry = Some 1\<rparr>)"
  "block_page_count (state_after straddle_map) = (\<lambda>_. 0)(0x3FF := 1, 0x400 := 1)"
  by (simp_all add: straddle_map_def mm_eval upt_conv_Cons)

lemma straddle_search:
  "find_free_pages (state_after straddle_map) 1 ADDRESS_ALLOCATION_LOW ADDRESS_ALLOCATION_HIGH
     = Some 0x4000"
proof -
  let ?es = "map_entries (state_after straddle_map)"
  have "find_free_loop ?es 1 0x4000 0x70000 0x4000 (Some 0)
          = Some (if (0x70000 :: u32) - 0x4000 \<ge> 1 then 0x4000 else 0)"
    by (rule find_free_loop_skip [where n = 65535])
       (simp_all add: straddle_state mm_init_def MAX_MMAP_COUNT_def)
  then show ?thesis
    by (simp add: find_free_pages_def straddle_state mm_consts)
qed

lemma insert_entry_chain:
  assumes "map_list s = Some 0"
    and "\<forall>i. i < 65535 \<longrightarrow>
           next_entry (map_entries s i) = (if i + 1 < 65535 then Some (i + 1) else None)"
    and "\<forall>i. i < 65535 \<longrightarrow> start_page (map_entries s i) \<le> end_pg"
  shows "insert_entry entry end_pg s
           = Some (s\<lparr>map_entries := link_after (map_entries s) entry 65534\<rparr>)"
proof -
  have "insert_loop entry end_pg (Some 0) s
           = Some (s\<lparr>map_entries := link_after (map_entries s) entry (65535 - 1)\<rparr>)"
    by (rule insert_loop_skip) (simp_all add: assms)
  moreover from assms(3) have "\<not> start_page (map_entries s 0) > end_pg" by (simp add: not_less)
  ultimately show ?thesis
    by (simp add: insert_entry_def assms(1))
qed

lemma search_after_straddle_returns:
  "returned search_after_straddle = Some 0x04000000"
  apply (simp add: search_after_straddle_def mm_mmap_def config0_def
       straddle_search [unfolded ADDRESS_ALLOCATION_LOW_def ADDRESS_ALLOCATION_HIGH_def] mm_consts bad_range_def prot_rw_def)
  apply (simp add: mm_mmap_at_def mm_consts alloc_blocks.simps straddle_state new_map_entry_def mm_init_def
      insert_entry_chain range_u32_def upt_conv_Cons host_ok_def log_call_def returned_def)
  done

text \<open>
  Claim C4 (a call of \<^verbatim>\<open>mm_mmap\<close> without \<^verbatim>\<open>MAP_FIXED\<close> that succeeds returns a range that
  overlaps no map entry of the list). The code breaks it: \<^verbatim>\<open>find_free_pages\<close> skips an
  entry that starts below the window, also when the entry ends inside it. After
  \<^verbatim>\<open>mm_init\<close>, the fixed mapping of pages \<open>0x3FFF\<close> and \<open>0x4000\<close> returns its address and
  leaves the entry \<open>[0x3FFF, 0x4000]\<close> at the head of the list; the mapping of one page
  without \<^verbatim>\<open>MAP_FIXED\<close> that follows returns \<open>0x04000000\<close>, which is page \<open>0x4000\<close>.
\<close>

theorem C4_search_returns_mapped_page:
  "returned straddle_map = Some 0x03FFF000
   \<and> map_list (state_after straddle_map) = Some 0
   \<and> start_page (map_entries (state_after straddle_map) 0) = 0x3FFF
   \<and> end_page (map_entries (state_after straddle_map) 0) = 0x4000
   \<and> (MAP_ANONYMOUS OR MAP_PRIVATE) AND MAP_FIXED = 0
   \<and> returned search_after_straddle = Some 0x04000000
   \<and> GET_PAGE 0x04000000 = 0x4000"
  by (simp add: straddle_state search_after_straddle_returns mm_consts)

end
